theory Spec2Isabelle
  imports Complex_Main
begin

section \<open>Python values, exceptions and printing\<close>

text \<open>
  The five notebooks share one test harness: \<open>run\<close> turns a test-case input string into
  an output string, \<open>check\<close> compares it with the expected string, and a driver loop
  prints the verdict.  Exceptions are values: a function that may raise returns
  \<open>exn + 'a\<close>, with \<open>Inl\<close> for the raised exception.  Python floats are modelled by
  the real numbers (exact arithmetic) unless a rounding function is passed explicitly.
\<close>

datatype exn =
    AssertionError string
  | ValueError string
  | IndexError string
  | KeyError string
  | RuntimeError string
  | KeyboardInterrupt
  | SystemExit string

text \<open>
  \<open>isinstance(exc, Exception)\<close>: what the handler \<open>except Exception\<close> of the driver loop
  catches.  \<open>KeyboardInterrupt\<close> and \<open>SystemExit\<close> derive from \<open>BaseException\<close> only.
\<close>

fun is_Exception :: "exn \<Rightarrow> bool" where
  "is_Exception KeyboardInterrupt = False"
| "is_Exception (SystemExit m) = False"
| "is_Exception exc = True"

text \<open>\<open>str(exc)\<close>, as the f-string of the driver loop renders the exception.\<close>

fun str_exn :: "exn \<Rightarrow> string" where
  "str_exn (AssertionError m) = m"
| "str_exn (ValueError m) = m"
| "str_exn (IndexError m) = m"
| "str_exn (KeyError m) = m"
| "str_exn (RuntimeError m) = m"
| "str_exn KeyboardInterrupt = []"
| "str_exn (SystemExit m) = m"

text \<open>
  What a Python function hands back to the \<open>if message := check(...)\<close> test of the
  driver loop: \<open>None\<close> (a body without a return statement) or a string.
\<close>

datatype pyval = PyNone | PyStr string

fun truthy :: "pyval \<Rightarrow> bool" where
  "truthy PyNone = False"
| "truthy (PyStr s) = (s \<noteq> [])"

text \<open>Decimal rendering of the loop index, as \<open>{i}\<close> in an f-string.\<close>

definition digit_char :: "nat \<Rightarrow> char" where
  "digit_char d = ''0123456789'' ! d"

function str_nat :: "nat \<Rightarrow> string" where
  "str_nat n = (if n < 10 then [digit_char n] else str_nat (n div 10) @ [digit_char (n mod 10)])"
  by pat_completeness auto
termination
  by (relation "measure id") auto

declare str_nat.simps [simp del]

section \<open>NumPy's allclose\<close>

text \<open>
  \<open>np.allclose(a, b, rtol, atol=1e-8)\<close> is true when, after broadcasting,
  \<open>|a - b| \<le> atol + rtol * |b|\<close> holds elementwise; \<open>b\<close> is the expected value.
  Shapes that cannot be broadcast raise \<open>ValueError\<close>.  Arrays of one axis are lists,
  arrays of two axes are lists of rows of one common length.
\<close>

definition atol :: real where
  "atol = 1 / 10 ^ 8"

definition isclose :: "real \<Rightarrow> real \<Rightarrow> real \<Rightarrow> bool" where
  "isclose rtol a b \<longleftrightarrow> \<bar>a - b\<bar> \<le> atol + rtol * \<bar>b\<bar>"

definition broadcast :: "'a list \<Rightarrow> 'b list \<Rightarrow> ('a \<times> 'b) list option" where
  "broadcast xs ys =
     (if length xs = length ys then Some (zip xs ys)
      else if length xs = 1 then Some (map (Pair (hd xs)) ys)
      else if length ys = 1 then Some (map (\<lambda>x. (x, hd ys)) xs)
      else None)"

definition broadcast_error :: exn where
  "broadcast_error = ValueError ''operands could not be broadcast together''"

definition allclose :: "real list \<Rightarrow> real list \<Rightarrow> real \<Rightarrow> exn + bool" where
  "allclose a b rtol =
     (case broadcast a b of
        None \<Rightarrow> Inl broadcast_error
      | Some ps \<Rightarrow> Inr (list_all (\<lambda>(x, y). isclose rtol x y) ps))"

definition rectangular :: "'a list list \<Rightarrow> bool" where
  "rectangular m \<longleftrightarrow> list_all (\<lambda>r. length r = length (hd m)) m"

definition allclose2 :: "real list list \<Rightarrow> real list list \<Rightarrow> real \<Rightarrow> exn + bool" where
  "allclose2 a b rtol =
     (if rectangular a \<and> rectangular b then
        (case broadcast a b of
           None \<Rightarrow> Inl broadcast_error
         | Some rows \<Rightarrow>
             if list_all (\<lambda>(r, s). broadcast r s \<noteq> None) rows then
               Inr (list_all (\<lambda>(r, s). list_all (\<lambda>(x, y). isclose rtol x y) (the (broadcast r s))) rows)
             else Inl broadcast_error)
      else Inl (ValueError ''inhomogeneous shape''))"

section \<open>The checkers\<close>

text \<open>
  \<open>json.loads\<close> belongs to Python's standard library; each checker takes it as the
  parameter \<open>loads\<close>.  In the three numeric notebooks it yields the list of numbers,
  in the two universality notebooks the dictionary with the keys \<open>matrix\<close> and
  \<open>gates\<close>.
\<close>

definition check_numeric ::
  "real \<Rightarrow> string \<Rightarrow> (string \<Rightarrow> exn + real list) \<Rightarrow> string \<Rightarrow> string \<Rightarrow> exn + pyval" where
  "check_numeric rtol msg loads solution_output expected_output =
     (case loads solution_output of
        Inl e \<Rightarrow> Inl e
      | Inr sol \<Rightarrow>
          (case loads expected_output of
             Inl e \<Rightarrow> Inl e
           | Inr expected \<Rightarrow>
               (case allclose sol expected rtol of
                  Inl e \<Rightarrow> Inl e
                | Inr ok \<Rightarrow> if ok then Inr PyNone else Inl (AssertionError msg))))"

text \<open>Four-term parameter-shift notebook: \<open>rtol=1e-4\<close>.\<close>

definition check_gradient :: "(string \<Rightarrow> exn + real list) \<Rightarrow> string \<Rightarrow> string \<Rightarrow> exn + pyval" where
  "check_gradient = check_numeric (1 / 10 ^ 4) (''Your gradient isn'' @ [CHR 0x27] @ ''t quite right!'')"

text \<open>Noisy-circuit (bitflip fidelity) notebook: \<open>rtol=1e-4\<close>.\<close>

definition check_fidelity :: "(string \<Rightarrow> exn + real list) \<Rightarrow> string \<Rightarrow> string \<Rightarrow> exn + pyval" where
  "check_fidelity = check_numeric (1 / 10 ^ 4) (''Your circuit isn'' @ [CHR 0x27] @ ''t quite right!'')"

text \<open>Error-mitigated VQE notebook: \<open>rtol=1e-2\<close>.\<close>

definition check_zne :: "(string \<Rightarrow> exn + real list) \<Rightarrow> string \<Rightarrow> string \<Rightarrow> exn + pyval" where
  "check_zne = check_numeric (1 / 10 ^ 2) (''Your extrapolation isn'' @ [CHR 0x27] @ ''t quite right!'')"

record parsed_output =
  matrix :: "real list list"
  gates :: "string list"

text \<open>\<open>qml.matrix(qml.SWAP)(wires=[0, 1])\<close>.\<close>

definition SWAP_matrix :: "real list list" where
  "SWAP_matrix = [[1, 0, 0, 0], [0, 0, 1, 0], [0, 1, 0, 0], [0, 0, 0, 1]]"

text \<open>
  H, T and CNOT notebook.  \<open>np.allclose\<close> is called with its default \<open>rtol=1e-5\<close>;
  the second assertion has no message.
\<close>

definition check_htcnot :: "(string \<Rightarrow> exn + parsed_output) \<Rightarrow> string \<Rightarrow> string \<Rightarrow> exn + pyval" where
  "check_htcnot loads user_output expected_output =
     (case loads user_output of
        Inl e \<Rightarrow> Inl e
      | Inr po \<Rightarrow>
          (case allclose2 (matrix po) SWAP_matrix (1 / 10 ^ 5) of
             Inl e \<Rightarrow> Inl e
           | Inr ok \<Rightarrow>
               if \<not> ok then Inl (AssertionError [])
               else if length (remdups (gates po)) = 3
                       \<and> ''Hadamard'' \<in> set (gates po)
                       \<and> ''CNOT'' \<in> set (gates po)
                       \<and> ''T'' \<in> set (gates po)
               then Inr PyNone
               else Inl (AssertionError [])))"

text \<open>The literal matrix of the U3 and CNOT notebook, before the factor \<open>1/sqrt 2\<close>.\<close>

definition solution_rows :: "real list list" where
  "solution_rows =
     [[1, 1, 0, 0, 0, 0, 0, 0],
      [1, -1, 0, 0, 0, 0, 0, 0],
      [0, 0, -1, -1, 0, 0, 0, 0],
      [0, 0, -1, 1, 0, 0, 0, 0],
      [0, 0, 0, 0, 1, 1, 0, 0],
      [0, 0, 0, 0, 1, -1, 0, 0],
      [0, 0, 0, 0, 0, 0, 1, 1],
      [0, 0, 0, 0, 0, 0, 1, -1]]"

definition solution :: "real list list" where
  "solution = map (map (\<lambda>x. 1 / sqrt 2 * x)) solution_rows"

definition check_u3cnot :: "(string \<Rightarrow> exn + parsed_output) \<Rightarrow> string \<Rightarrow> string \<Rightarrow> exn + pyval" where
  "check_u3cnot loads user_output expected_output =
     (case loads user_output of
        Inl e \<Rightarrow> Inl e
      | Inr po \<Rightarrow>
          (case allclose2 (matrix po) solution (1 / 10 ^ 5) of
             Inl e \<Rightarrow> Inl e
           | Inr ok \<Rightarrow>
               if \<not> ok then Inl (AssertionError [])
               else if length (remdups (gates po)) = 2
                       \<and> ''U3'' \<in> set (gates po)
                       \<and> ''CNOT'' \<in> set (gates po)
               then Inr PyNone
               else Inl (AssertionError [])))"

section \<open>The driver loop\<close>

text \<open>
  The loop of every notebook, over \<open>enumerate(test_cases)\<close>.  The state is the list of
  printed lines; the result also says whether an exception left the loop.  The
  \<open>try\<close> statement covers the call of \<open>run\<close> only: \<open>check\<close> is called in its
  \<open>else\<close> branch, outside the handler.
\<close>

definition running_line :: "nat \<Rightarrow> string \<Rightarrow> string" where
  "running_line i input = ''Running test case '' @ str_nat i @ '' with input '' @ [CHR 0x27] @ input
      @ [CHR 0x27] @ ''...''"

definition runtime_error_line :: "exn \<Rightarrow> string" where
  "runtime_error_line exc = ''Runtime Error. '' @ str_exn exc"

definition wrong_answer_line :: "string \<Rightarrow> string \<Rightarrow> string" where
  "wrong_answer_line output expected_output =
     ''Wrong Answer. Have: '' @ [CHR 0x27] @ output @ [CHR 0x27] @ ''. Want: '' @ [CHR 0x27]
       @ expected_output @ [CHR 0x27] @ ''.''"

definition correct_line :: string where
  "correct_line = ''Correct!''"

fun driver_loop ::
  "(string \<Rightarrow> exn + string) \<Rightarrow> (string \<Rightarrow> string \<Rightarrow> exn + pyval) \<Rightarrow> nat \<Rightarrow>
   (string \<times> string) list \<Rightarrow> string list \<Rightarrow> string list \<times> exn option" where
  "driver_loop run check i [] out = (out, None)"
| "driver_loop run check i ((input, expected_output) # rest) out =
     (let out1 = out @ [running_line i input] in
      case run input of
        Inl exc \<Rightarrow>
          if is_Exception exc then
            driver_loop run check (Suc i) rest (out1 @ [runtime_error_line exc])
          else (out1, Some exc)
      | Inr output \<Rightarrow>
          (case check output expected_output of
             Inl exc \<Rightarrow> (out1, Some exc)
           | Inr message \<Rightarrow>
               if truthy message then
                 driver_loop run check (Suc i) rest (out1 @ [wrong_answer_line output expected_output])
               else
                 driver_loop run check (Suc i) rest (out1 @ [correct_line])))"

definition driver ::
  "(string \<Rightarrow> exn + string) \<Rightarrow> (string \<Rightarrow> string \<Rightarrow> exn + pyval) \<Rightarrow>
   (string \<times> string) list \<Rightarrow> string list \<times> exn option" where
  "driver run check test_cases = driver_loop run check 0 test_cases []"

section \<open>Arithmetic: exact, or rounded as IEEE doubles\<close>

text \<open>
  Python's \<open>float\<close> is an IEEE-754 binary64 number, and every \<open>+\<close>, \<open>-\<close>, \<open>*\<close>, \<open>/\<close>
  returns the exact result rounded to the nearest double, ties to even.  The functions
  that compute with floats take the arithmetic as a parameter: the rounding \<open>fl\<close> applied
  to each exact result, the constant \<open>np.pi\<close> and the function \<open>np.sqrt\<close>.  With
  \<open>exact_arith\<close> nothing is rounded (the real numbers); with \<open>double_arith\<close> every
  result is rounded to 53 significant bits.  The exponent range is left unbounded:
  overflow to infinity is not modelled, and a sum or difference of two doubles that
  falls in the subnormal range is exact in IEEE arithmetic as it is here.
\<close>

definition round_half_even :: "real \<Rightarrow> int" where
  "round_half_even x =
     (let f = \<lfloor>x\<rfloor> in
      if x - of_int f < 1 / 2 then f
      else if 1 / 2 < x - of_int f then f + 1
      else if even f then f else f + 1)"

definition float_round :: "real \<Rightarrow> real" where
  "float_round x =
     (if x = 0 then 0
      else let e = \<lfloor>log 2 \<bar>x\<bar>\<rfloor> - 52
           in of_int (round_half_even (x / 2 powr of_int e)) * 2 powr of_int e)"

record arith =
  fl :: "real \<Rightarrow> real"
  np_pi :: real
  np_sqrt :: "real \<Rightarrow> real"

definition exact_arith :: arith where
  "exact_arith = \<lparr>fl = (\<lambda>x. x), np_pi = pi, np_sqrt = sqrt\<rparr>"

text \<open>\<open>np.pi\<close> is the double \<open>3.141592653589793 = 884279719003555 / 2^48\<close>.\<close>

definition double_arith :: arith where
  "double_arith = \<lparr>fl = float_round, np_pi = 884279719003555 / 2 ^ 48,
                    np_sqrt = (\<lambda>x. float_round (sqrt x))\<rparr>"

text \<open>
  \<open>np.round_(x, decimals)\<close>: NumPy scales by \<open>10^decimals\<close>, rounds to the nearest
  integer with ties to even (\<open>rint\<close>), and divides again.
\<close>

definition np_round :: "arith \<Rightarrow> nat \<Rightarrow> real \<Rightarrow> real" where
  "np_round A decimals x = fl A (of_int (round_half_even (fl A (x * 10 ^ decimals))) / 10 ^ decimals)"

section \<open>The four-term parameter-shift notebook\<close>

definition shifts_and_coeffs :: "arith \<Rightarrow> real list \<times> real list" where
  "shifts_and_coeffs A =
     ([fl A (np_pi A / 2), fl A (fl A (np_pi A * 3) / 2)],
      [fl A (fl A (np_sqrt A 2 + 1) / fl A (4 * np_sqrt A 2)),
       fl A (fl A (np_sqrt A 2 - 1) / fl A (4 * np_sqrt A 2))])"

text \<open>
  One pass of the body of the \<open>for i in range(len(params))\<close> loop of
  \<open>my_parameter_shift_grad\<close>.  The state is the pair of the list \<open>params\<close>, which the
  body updates in place, and the array \<open>gradient\<close>.  The QNode \<open>circuit\<close> is a parameter;
  it may raise, and then the exception leaves the function with \<open>params\<close> as it is at
  that moment.
\<close>

definition iteration ::
  "arith \<Rightarrow> (real list \<Rightarrow> exn + real) \<Rightarrow> nat \<Rightarrow> real list \<times> real list \<Rightarrow>
   exn option \<times> real list \<times> real list" where
  "iteration A circuit i st =
     (let (params, gradient) = st;
          (shifts, coeffs) = shifts_and_coeffs A;
          shift = shifts ! 0;
          params = params[i := fl A (params ! i + shift)]
      in (case circuit params of
           Inl e \<Rightarrow> (Some e, params, gradient)
         | Inr v \<Rightarrow>
     (let gradient = gradient[i := v];
          params = params[i := fl A (params ! i - fl A (2 * shift))]
      in (case circuit params of
           Inl e \<Rightarrow> (Some e, params, gradient)
         | Inr v \<Rightarrow>
     (let gradient = gradient[i := fl A (gradient ! i - v)];
          params = params[i := fl A (params ! i + shift)];
          gradient = gradient[i := fl A (gradient ! i * coeffs ! 0)];
          shift = shifts ! 1;
          params = params[i := fl A (params ! i + shift)]
      in (case circuit params of
           Inl e \<Rightarrow> (Some e, params, gradient)
         | Inr tmp \<Rightarrow>
     (let params = params[i := fl A (params ! i - fl A (2 * shift))]
      in (case circuit params of
           Inl e \<Rightarrow> (Some e, params, gradient)
         | Inr v \<Rightarrow>
     (let tmp = fl A (tmp - v);
          params = params[i := fl A (params ! i + shift)];
          tmp = fl A (tmp * coeffs ! 1);
          gradient = gradient[i := fl A (gradient ! i - tmp)]
      in (None, params, gradient))))))))))"

fun grad_loop ::
  "arith \<Rightarrow> (real list \<Rightarrow> exn + real) \<Rightarrow> nat list \<Rightarrow> real list \<times> real list \<Rightarrow>
   exn option \<times> real list \<times> real list" where
  "grad_loop A circuit [] st = (None, st)"
| "grad_loop A circuit (i # is) st =
     (case iteration A circuit i st of
        (Some e, st') \<Rightarrow> (Some e, st')
      | (None, st') \<Rightarrow> grad_loop A circuit is st')"

text \<open>
  The result is what the function returns (or the exception it raises) together with the
  final contents of the caller's list \<open>params\<close>.
\<close>

definition my_parameter_shift_grad ::
  "arith \<Rightarrow> (real list \<Rightarrow> exn + real) \<Rightarrow> real list \<Rightarrow> (exn + real list) \<times> real list" where
  "my_parameter_shift_grad A circuit params =
     (let gradient = replicate (length params) 0
      in case grad_loop A circuit [0..<length params] (params, gradient) of
           (Some e, params', gradient') \<Rightarrow> (Inl e, params')
         | (None, params', gradient') \<Rightarrow> (Inr (map (np_round A 5) gradient'), params'))"

text \<open>
  What the three updates \<open>+= shift\<close>, \<open>-= 2*shift\<close>, \<open>+= shift\<close> make of an entry, and
  what the two rounds with the two shifts make of it.
\<close>

definition shifted :: "arith \<Rightarrow> real \<Rightarrow> real \<Rightarrow> real" where
  "shifted A shift x = fl A (fl A (fl A (x + shift) - fl A (2 * shift)) + shift)"

definition restored :: "arith \<Rightarrow> real \<Rightarrow> real" where
  "restored A x =
     shifted A (fst (shifts_and_coeffs A) ! 1) (shifted A (fst (shifts_and_coeffs A) ! 0) x)"

text \<open>
  The rule as the claim words it: for the shifts \<open>s1 = pi/2\<close>, \<open>s2 = 3 pi/2\<close> and the
  coefficients \<open>c1 = (sqrt 2 + 1) / (4 sqrt 2)\<close>, \<open>c2 = (sqrt 2 - 1) / (4 sqrt 2)\<close>,
  \<open>c1 [f(\<theta>i + s1) - f(\<theta>i - s1)] - c2 [f(\<theta>i + s2) - f(\<theta>i - s2)]\<close>.
\<close>

definition four_term_rule :: "(real list \<Rightarrow> real) \<Rightarrow> real list \<Rightarrow> nat \<Rightarrow> real" where
  "four_term_rule f \<theta> i =
     (let s1 = pi / 2; s2 = 3 * pi / 2;
          c1 = (sqrt 2 + 1) / (4 * sqrt 2); c2 = (sqrt 2 - 1) / (4 * sqrt 2)
      in c1 * (f (\<theta>[i := \<theta> ! i + s1]) - f (\<theta>[i := \<theta> ! i - s1]))
         - c2 * (f (\<theta>[i := \<theta> ! i + s2]) - f (\<theta>[i := \<theta> ! i - s2])))"

section \<open>Quantum circuits\<close>

text \<open>
  PennyLane's simulator is not part of the repository; the circuits are given the
  semantics PennyLane documents for each operation.  A basis configuration assigns a bit
  to every wire; a state vector gives every configuration its amplitude.  A gate on one
  wire acts by its two-by-two matrix on that wire's bit; a controlled gate acts on the
  configurations whose control bit is set.
\<close>

type_synonym config = "nat \<Rightarrow> bool"
type_synonym state = "config \<Rightarrow> complex"
type_synonym mat2 = "bool \<Rightarrow> bool \<Rightarrow> complex"

definition apply1 :: "mat2 \<Rightarrow> nat \<Rightarrow> state \<Rightarrow> state" where
  "apply1 m w \<psi> = (\<lambda>b. m (b w) False * \<psi> (b(w := False)) + m (b w) True * \<psi> (b(w := True)))"

definition controlled :: "nat \<Rightarrow> (state \<Rightarrow> state) \<Rightarrow> state \<Rightarrow> state" where
  "controlled c g \<psi> = (\<lambda>b. if b c then g \<psi> b else \<psi> b)"

text \<open>The matrix with the rows \<open>(a, b)\<close> and \<open>(c, d)\<close>.\<close>

definition mat2_of :: "complex \<Rightarrow> complex \<Rightarrow> complex \<Rightarrow> complex \<Rightarrow> mat2" where
  "mat2_of a b c d = (\<lambda>r k. if r then (if k then d else c) else (if k then b else a))"

definition Hadamard_matrix :: mat2 where
  "Hadamard_matrix = mat2_of (1 / sqrt 2) (1 / sqrt 2) (1 / sqrt 2) (- (1 / sqrt 2))"

definition PauliX_matrix :: mat2 where
  "PauliX_matrix = mat2_of 0 1 1 0"

definition PauliZ_matrix :: mat2 where
  "PauliZ_matrix = mat2_of 1 0 0 (- 1)"

definition T_matrix :: mat2 where
  "T_matrix = mat2_of 1 0 0 (cis (pi / 4))"

definition RX_matrix :: "real \<Rightarrow> mat2" where
  "RX_matrix \<theta> =
     (let c = complex_of_real (cos (\<theta> / 2)); s = complex_of_real (sin (\<theta> / 2))
      in mat2_of c (- \<i> * s) (- \<i> * s) c)"

definition RY_matrix :: "real \<Rightarrow> mat2" where
  "RY_matrix \<theta> =
     (let c = complex_of_real (cos (\<theta> / 2)); s = complex_of_real (sin (\<theta> / 2))
      in mat2_of c (- s) s c)"

definition RZ_matrix :: "real \<Rightarrow> mat2" where
  "RZ_matrix \<theta> = mat2_of (cis (- \<theta> / 2)) 0 0 (cis (\<theta> / 2))"

definition U3_matrix :: "real \<Rightarrow> real \<Rightarrow> real \<Rightarrow> mat2" where
  "U3_matrix \<theta> \<phi> \<delta> =
     (let c = complex_of_real (cos (\<theta> / 2)); s = complex_of_real (sin (\<theta> / 2))
      in mat2_of c (- cis \<delta> * s) (cis \<phi> * s) (cis (\<phi> + \<delta>) * c))"

text \<open>The operations the notebooks queue, with their wires; \<open>op_name\<close> is \<open>op.name\<close>.\<close>

datatype op =
    Hadamard nat
  | T nat
  | CNOT nat nat
  | U3 real real real nat
  | CRX real nat nat
  | CRY real nat nat
  | CRZ real nat nat

fun op_name :: "op \<Rightarrow> string" where
  "op_name (Hadamard w) = ''Hadamard''"
| "op_name (T w) = ''T''"
| "op_name (CNOT c t) = ''CNOT''"
| "op_name (U3 \<theta> \<phi> \<delta> w) = ''U3''"
| "op_name (CRX \<theta> c t) = ''CRX''"
| "op_name (CRY \<theta> c t) = ''CRY''"
| "op_name (CRZ \<theta> c t) = ''CRZ''"

fun apply_op :: "op \<Rightarrow> state \<Rightarrow> state" where
  "apply_op (Hadamard w) = apply1 Hadamard_matrix w"
| "apply_op (T w) = apply1 T_matrix w"
| "apply_op (CNOT c t) = controlled c (apply1 PauliX_matrix t)"
| "apply_op (U3 \<theta> \<phi> \<delta> w) = apply1 (U3_matrix \<theta> \<phi> \<delta>) w"
| "apply_op (CRX \<theta> c t) = controlled c (apply1 (RX_matrix \<theta>) t)"
| "apply_op (CRY \<theta> c t) = controlled c (apply1 (RY_matrix \<theta>) t)"
| "apply_op (CRZ \<theta> c t) = controlled c (apply1 (RZ_matrix \<theta>) t)"

fun apply_ops :: "op list \<Rightarrow> state \<Rightarrow> state" where
  "apply_ops [] \<psi> = \<psi>"
| "apply_ops (g # gs) \<psi> = apply_ops gs (apply_op g \<psi>)"

text \<open>
  The configurations of a device with \<open>n\<close> wires, in the order of the computational
  basis (wire 0 is the most significant bit), and the basis state of a configuration.
\<close>

fun configs :: "nat \<Rightarrow> config list" where
  "configs 0 = [\<lambda>w. False]"
| "configs (Suc n) = concat (map (\<lambda>b. [b, b(n := True)]) (configs n))"

definition basis_state :: "nat \<Rightarrow> config \<Rightarrow> state" where
  "basis_state n c = (\<lambda>b. if list_all (\<lambda>w. b w = c w) [0..<n] then 1 else 0)"

datatype observable = PauliZ nat | PauliX nat

fun apply_observable :: "observable \<Rightarrow> state \<Rightarrow> state" where
  "apply_observable (PauliZ w) = apply1 PauliZ_matrix w"
| "apply_observable (PauliX w) = apply1 PauliX_matrix w"

text \<open>\<open>qml.expval\<close> of a sum of observables in the state \<open>\<psi>\<close> of an \<open>n\<close>-wire device.\<close>

definition expval :: "nat \<Rightarrow> observable list \<Rightarrow> state \<Rightarrow> real" where
  "expval n obs \<psi> =
     Re (\<Sum>ob\<leftarrow>obs. \<Sum>b\<leftarrow>configs n. cnj (\<psi> b) * apply_observable ob \<psi> b)"

subsection \<open>The circuit of the parameter-shift notebook\<close>

text \<open>
  \<open>qml.broadcast(qml.Hadamard, wires=range(3), pattern="single")\<close> puts a Hadamard on
  each of the three wires.  The QNode indexes \<open>params\<close> at 0, 1 and 2, which raises
  \<open>IndexError\<close> on a shorter list.
\<close>

definition circuit_ops :: "real list \<Rightarrow> op list" where
  "circuit_ops params =
     map Hadamard [0..<3] @
     [CRX (params ! 0) 1 2, CRY (params ! 1) 0 1, CRZ (params ! 2) 2 0]"

definition circuit_value :: "real list \<Rightarrow> real" where
  "circuit_value params =
     expval 3 [PauliZ 0, PauliZ 1, PauliX 2]
       (apply_ops (circuit_ops params) (basis_state 3 (\<lambda>w. False)))"

definition circuit :: "real list \<Rightarrow> exn + real" where
  "circuit params =
     (if length params < 3 then Inl (IndexError ''list index out of range'')
      else Inr (circuit_value params))"

text \<open>
  The state the circuit prepares, in closed form (\<open>a\<close>, \<open>\<beta>\<close>, \<open>\<gamma>\<close> are the halved
  parameters); \<open>circuit_final_state\<close> below proves that it is.
\<close>

definition final_state :: "real \<Rightarrow> real \<Rightarrow> real \<Rightarrow> state" where
  "final_state a \<beta> \<gamma> = (\<lambda>b.
     (if b 2 then (if b 0 then cis \<gamma> else cis (- \<gamma>)) else 1) *
     (if b 0 then (if b 1 then of_real (sin \<beta>) + of_real (cos \<beta>) * cis (- a)
                   else of_real (cos \<beta>) - of_real (sin \<beta>) * cis (- a))
      else (if b 1 then cis (- a) else 1)) / (2 * sqrt 2))"

section \<open>The universality notebooks\<close>

text \<open>
  \<open>qml.matrix\<close> of a circuit on \<open>n\<close> wires: the entry in row \<open>r\<close> and column \<open>c\<close> is the
  amplitude of the configuration \<open>r\<close> after the circuit has run on the basis state \<open>c\<close>.
\<close>

definition qml_matrix :: "nat \<Rightarrow> op list \<Rightarrow> complex list list" where
  "qml_matrix n ops = map (\<lambda>r. map (\<lambda>c. apply_ops ops (basis_state n c) r) (configs n)) (configs n)"

subsection \<open>H, T and CNOT\<close>

text \<open>The tape of \<open>U()\<close>; each \<open>for _ in range(k)\<close> loop queues \<open>k\<close> copies of a T gate.\<close>

definition U :: "op list" where
  "U = [Hadamard 0, Hadamard 1, CNOT 0 1,
        CNOT 0 1, Hadamard 0, T 0] @ replicate 7 (T 1) @
       [Hadamard 0, Hadamard 1, CNOT 0 1, Hadamard 0, Hadamard 1] @ replicate 7 (T 0) @
       [Hadamard 0, CNOT 0 1] @ replicate 6 (T 0) @ replicate 2 (T 1) @
       [Hadamard 0, Hadamard 1]"

definition circuit_htcnot :: "op list" where
  "circuit_htcnot =
     [CNOT 0 1, Hadamard 0, Hadamard 1] @ U @ [CNOT 1 0] @ U @ [Hadamard 0, Hadamard 1]"

text \<open>
  What \<open>run\<close> puts into the JSON object: the real part of the circuit's matrix and the
  names on the tape of \<open>U()\<close>.
\<close>

definition run_output_htcnot :: parsed_output where
  "run_output_htcnot =
     \<lparr>matrix = map (map Re) (qml_matrix 2 circuit_htcnot), gates = map op_name U\<rparr>"

subsection \<open>U3 and CNOT\<close>

text \<open>The angles are taken with the exact \<open>pi\<close>.\<close>

definition circuit_u3cnot :: "op list" where
  "circuit_u3cnot =
     [U3 0 0 0 0, U3 0 0 0 1, U3 0 0 0 2,
      U3 0 (pi / 2) (pi / 2) 1,
      U3 (pi / 2) 0 pi 1, CNOT 0 1, U3 (pi / 2) 0 pi 1,
      U3 (pi / 2) 0 pi 2]"

definition run_output_u3cnot :: parsed_output where
  "run_output_u3cnot =
     \<lparr>matrix = map (map Re) (qml_matrix 3 circuit_u3cnot), gates = map op_name circuit_u3cnot\<rparr>"

subsection \<open>Exact amplitudes on two wires\<close>

text \<open>
  A device for the proof that the 80 gates of the H, T and CNOT circuit multiply to SWAP.
  Every amplitude that occurs is an integer combination of the powers of
  \<open>\<zeta> = exp (i pi / 4)\<close>, divided by a power of \<open>sqrt 2\<close>.  A table holds the exponent of
  \<open>sqrt 2\<close> and the four amplitudes of the configurations 00, 01, 10, 11 as integer
  quadruples; \<open>table_op\<close> is the action of a gate on a table, and
  \<open>table_op_refines\<close> below proves that it is the action of the gate on the state.
\<close>

type_synonym cyc = "int \<times> int \<times> int \<times> int"

definition cyc_val :: "cyc \<Rightarrow> complex" where
  "cyc_val z = (case z of (a, b, c, d) \<Rightarrow>
     of_int a + of_int b * cis (pi / 4) + of_int c * cis (pi / 4) ^ 2 + of_int d * cis (pi / 4) ^ 3)"

definition cyc_add :: "cyc \<Rightarrow> cyc \<Rightarrow> cyc" where
  "cyc_add x y = (case x of (a, b, c, d) \<Rightarrow> case y of (a', b', c', d') \<Rightarrow> (a + a', b + b', c + c', d + d'))"

definition cyc_sub :: "cyc \<Rightarrow> cyc \<Rightarrow> cyc" where
  "cyc_sub x y = (case x of (a, b, c, d) \<Rightarrow> case y of (a', b', c', d') \<Rightarrow> (a - a', b - b', c - c', d - d'))"

definition cyc_rot :: "cyc \<Rightarrow> cyc" where
  "cyc_rot x = (case x of (a, b, c, d) \<Rightarrow> (- d, a, b, c))"

type_synonym table = "nat \<times> cyc \<times> cyc \<times> cyc \<times> cyc"

definition table_state :: "table \<Rightarrow> state" where
  "table_state t = (case t of (k, e00, e01, e10, e11) \<Rightarrow>
     (\<lambda>b. cyc_val (if b 0 then (if b 1 then e11 else e10) else (if b 1 then e01 else e00))
          / complex_of_real (sqrt 2) ^ k))"

fun table_op :: "op \<Rightarrow> table \<Rightarrow> table" where
  "table_op (Hadamard w) (k, a, b, c, d) =
     (if w = 0 then (Suc k, cyc_add a c, cyc_add b d, cyc_sub a c, cyc_sub b d)
      else (Suc k, cyc_add a b, cyc_sub a b, cyc_add c d, cyc_sub c d))"
| "table_op (T w) (k, a, b, c, d) =
     (if w = 0 then (k, a, b, cyc_rot c, cyc_rot d) else (k, a, cyc_rot b, c, cyc_rot d))"
| "table_op (CNOT c' t') (k, a, b, c, d) =
     (if c' = 0 then (k, a, b, d, c) else (k, a, d, c, b))"
| "table_op g t = t"

fun two_wire_op :: "op \<Rightarrow> bool" where
  "two_wire_op (Hadamard w) = (w < 2)"
| "two_wire_op (T w) = (w < 2)"
| "two_wire_op (CNOT c t) = (c < 2 \<and> t < 2 \<and> c \<noteq> t)"
| "two_wire_op g = False"

definition cyc_zero :: cyc where
  "cyc_zero = (0, 0, 0, 0)"

definition cyc_one :: cyc where
  "cyc_one = (1, 0, 0, 0)"

definition basis_table :: "nat \<Rightarrow> table" where
  "basis_table j = (0, if j = 0 then cyc_one else cyc_zero, if j = 1 then cyc_one else cyc_zero,
     if j = 2 then cyc_one else cyc_zero, if j = 3 then cyc_one else cyc_zero)"

section \<open>The noisy-circuit notebook\<close>

text \<open>
  On the device \<open>default.mixed\<close> the state is a density matrix, indexed by two
  configurations.  A gate \<open>g\<close> takes \<open>\<rho>\<close> to \<open>g \<rho> g\<^sup>\<dagger>\<close>; the channel \<open>BitFlip(p)\<close> on
  a wire takes \<open>\<rho>\<close> to the sum of \<open>K \<rho> K\<^sup>\<dagger>\<close> over its two Kraus matrices
  \<open>sqrt (1 - p) I\<close> and \<open>sqrt p X\<close>, and PennyLane rejects a \<open>p\<close> outside the unit interval.
  \<open>conjugate_with k \<rho>\<close> is \<open>k \<rho> k\<^sup>\<dagger>\<close> for a linear map \<open>k\<close> on state vectors.
\<close>

type_synonym density = "config \<Rightarrow> config \<Rightarrow> complex"

definition projector :: "state \<Rightarrow> density" where
  "projector \<psi> = (\<lambda>r c. \<psi> r * cnj (\<psi> c))"

definition conjugate_with :: "(state \<Rightarrow> state) \<Rightarrow> density \<Rightarrow> density" where
  "conjugate_with k \<rho> = (\<lambda>r c. cnj (k (\<lambda>c'. cnj (k (\<lambda>r'. \<rho> r' c') r)) c))"

definition BitFlip_kraus :: "real \<Rightarrow> mat2 list" where
  "BitFlip_kraus p =
     [mat2_of (sqrt (1 - p)) 0 0 (sqrt (1 - p)), mat2_of 0 (sqrt p) (sqrt p) 0]"

datatype mixed_op = Gate op | BitFlip real nat

fun apply_mixed :: "mixed_op \<Rightarrow> density \<Rightarrow> exn + density" where
  "apply_mixed (Gate g) \<rho> = Inr (conjugate_with (apply_op g) \<rho>)"
| "apply_mixed (BitFlip p w) \<rho> =
     (if 0 \<le> p \<and> p \<le> 1 then
        Inr (\<lambda>r c. \<Sum>k\<leftarrow>BitFlip_kraus p. conjugate_with (apply1 k w) \<rho> r c)
      else Inl (ValueError ''p must be in the interval [0,1]''))"

fun apply_mixed_ops :: "mixed_op list \<Rightarrow> density \<Rightarrow> exn + density" where
  "apply_mixed_ops [] \<rho> = Inr \<rho>"
| "apply_mixed_ops (g # gs) \<rho> =
     (case apply_mixed g \<rho> of Inl e \<Rightarrow> Inl e | Inr \<rho>' \<Rightarrow> apply_mixed_ops gs \<rho>')"

text \<open>
  The QNode \<open>circuit\<close> of this notebook (the name \<open>circuit\<close> is taken by the QNode of the
  parameter-shift notebook) and the QNode \<open>bitflip_circuit\<close>; both return \<open>qml.state()\<close>.
\<close>

definition bell_circuit :: "exn + density" where
  "bell_circuit =
     apply_mixed_ops [Gate (Hadamard 0), Gate (CNOT 0 1)] (projector (basis_state 2 (\<lambda>w. False)))"

definition bitflip_circuit :: "real \<Rightarrow> exn + density" where
  "bitflip_circuit p =
     apply_mixed_ops [Gate (Hadamard 0), Gate (CNOT 0 1), BitFlip p 0, BitFlip p 1]
       (projector (basis_state 2 (\<lambda>w. False)))"

text \<open>
  \<open>qml.math.fidelity\<close> is a function of the library and a parameter here.  The list
  comprehension evaluates \<open>bitflip_circuit(p)\<close>, then \<open>circuit()\<close>, for each \<open>p\<close> in turn.
\<close>

fun fidelities :: "(density \<Rightarrow> density \<Rightarrow> real) \<Rightarrow> real list \<Rightarrow> exn + real list" where
  "fidelities fidelity [] = Inr []"
| "fidelities fidelity (p # probs) =
     (case bitflip_circuit p of
        Inl e \<Rightarrow> Inl e
      | Inr \<rho> \<Rightarrow>
          (case bell_circuit of
             Inl e \<Rightarrow> Inl e
           | Inr \<sigma> \<Rightarrow>
               (case fidelities fidelity probs of
                  Inl e \<Rightarrow> Inl e
                | Inr fs \<Rightarrow> Inr (fidelity \<rho> \<sigma> # fs))))"

text \<open>
  What is assumed of \<open>qml.math.fidelity\<close>: for a positive semidefinite \<open>\<rho>\<close> and a pure
  state \<open>|\<phi>\<rangle>\<langle>\<phi>|\<close> it returns \<open>\<langle>\<phi>|\<rho>|\<phi>\<rangle>\<close>, as the Uhlmann fidelity does.
\<close>

definition overlap :: "state \<Rightarrow> density \<Rightarrow> complex" where
  "overlap \<phi> \<rho> = (\<Sum>r\<leftarrow>configs 2. \<Sum>c\<leftarrow>configs 2. cnj (\<phi> r) * \<rho> r c * \<phi> c)"

definition psd :: "density \<Rightarrow> bool" where
  "psd \<rho> \<longleftrightarrow> (\<forall>v. Im (overlap v \<rho>) = 0 \<and> 0 \<le> Re (overlap v \<rho>))"

definition pure_state_law :: "(density \<Rightarrow> density \<Rightarrow> real) \<Rightarrow> bool" where
  "pure_state_law fidelity \<longleftrightarrow>
     (\<forall>\<rho> \<phi>. psd \<rho> \<longrightarrow> fidelity \<rho> (projector \<phi>) = Re (overlap \<phi> \<rho>))"

text \<open>The two states in closed form; \<open>bell_circuit_eq\<close> and \<open>bitflip_circuit_eq\<close> prove them.\<close>

definition bell_state :: state where
  "bell_state = (\<lambda>b. if b 0 = b 1 then 1 / sqrt 2 else 0)"

definition bitflip_state :: "real \<Rightarrow> density" where
  "bitflip_state p = (\<lambda>r c.
     if r 0 = r 1 \<and> c 0 = c 1 then (1 - 2 * p + 2 * p\<^sup>2) / 2
     else if r 0 \<noteq> r 1 \<and> c 0 \<noteq> c 1 then p * (1 - p)
     else 0)"

text \<open>A function that satisfies the law, for the closed example: the trace of the product.\<close>

definition trace_product :: "density \<Rightarrow> density \<Rightarrow> real" where
  "trace_product \<rho> \<sigma> = Re (\<Sum>r\<leftarrow>configs 2. \<Sum>c\<leftarrow>configs 2. \<rho> r c * \<sigma> c r)"

section \<open>The error-mitigated VQE notebook\<close>

text \<open>
  Everything this notebook computes goes through PennyLane and NumPy: the molecular
  Hamiltonian of \<open>hydrogen_hamiltonian\<close>, the QNodes built from \<open>ansatz_template\<close>, the
  noise insertion, the circuit folding, the optimizer and \<open>np.polyfit\<close>.  They are the
  fields of one parameter: \<open>QNode lib d dev\<close> is the QNode of \<open>cost_fn\<close> for the distance
  \<open>d\<close> on the device \<open>dev\<close>, a function from the parameter of the ansatz to the energy;
  \<open>fold_global lib qnode scale_factor\<close> is the folded QNode; \<open>opt_step lib stepsize\<close> is
  \<open>GradientDescentOptimizer(stepsize).step\<close>.  A device is either \<open>default.mixed\<close> or a
  device with a depolarizing channel of the given strength inserted at every position.
\<close>

datatype device = Default_mixed | Insert_DepolarizingChannel real device

record pennylane =
  QNode :: "real \<Rightarrow> device \<Rightarrow> real \<Rightarrow> real"
  fold_global :: "(real \<Rightarrow> real) \<Rightarrow> real \<Rightarrow> real \<Rightarrow> real"
  opt_step :: "real \<Rightarrow> (real \<Rightarrow> real) \<Rightarrow> real \<Rightarrow> real"
  polyfit :: "real list \<Rightarrow> real list \<Rightarrow> nat \<Rightarrow> real list"

definition VQE :: "pennylane \<Rightarrow> (real \<Rightarrow> real) \<Rightarrow> real" where
  "VQE lib qnode =
     (let num_iters = 20;
          param = ((opt_step lib (4 / 10) qnode) ^^ num_iters) 0;
          final_energy = qnode param
      in final_energy)"

definition qnode_ansatzes ::
  "pennylane \<Rightarrow> real \<Rightarrow> real list \<Rightarrow> (real \<Rightarrow> real) \<times> (real \<Rightarrow> real) list" where
  "qnode_ansatzes lib d scale_factors =
     (let noise_strength = 5 / 100;
          dev_ideal = Default_mixed;
          dev_noisy = Insert_DepolarizingChannel noise_strength dev_ideal;
          qnode_ideal = QNode lib d dev_ideal;
          qnode_noisy = QNode lib d dev_noisy;
          qnodes_mitigated = map (\<lambda>scale_factor. fold_global lib qnode_noisy scale_factor) scale_factors
      in (qnode_ideal, qnodes_mitigated))"

definition extrapolation :: "arith \<Rightarrow> pennylane \<Rightarrow> real \<Rightarrow> real list \<Rightarrow> exn + real list" where
  "extrapolation A lib d scale_factors =
     (let (qnode_ideal, qnodes_mitigated) = qnode_ansatzes lib d scale_factors;
          ideal_energy = np_round A 6 (VQE lib qnode_ideal);
          mitigated_energies = map (VQE lib) qnodes_mitigated;
          coeffs = polyfit lib scale_factors mitigated_energies 2
      in if coeffs = [] then Inl (IndexError ''index -1 is out of bounds'')
         else Inr [ideal_energy, last coeffs])"

text \<open>
  What \<open>np.polyfit\<close> documents: the coefficients, highest power first, of a polynomial of
  the given degree that minimises the squared error.  \<open>interpolates\<close> says that the
  quadratic with the coefficients \<open>a\<close>, \<open>b\<close>, \<open>c\<close> passes through the points.
\<close>

definition polyval :: "real list \<Rightarrow> real \<Rightarrow> real" where
  "polyval coeffs x = foldl (\<lambda>acc c. acc * x + c) 0 coeffs"

definition squared_error :: "real list \<Rightarrow> real list \<Rightarrow> real list \<Rightarrow> real" where
  "squared_error coeffs xs ys = (\<Sum>(x, y)\<leftarrow>zip xs ys. (polyval coeffs x - y)\<^sup>2)"

definition least_squares_fit :: "real list \<Rightarrow> real list \<Rightarrow> nat \<Rightarrow> real list \<Rightarrow> bool" where
  "least_squares_fit xs ys deg coeffs \<longleftrightarrow>
     length coeffs = deg + 1
     \<and> (\<forall>cs. length cs = deg + 1 \<longrightarrow> squared_error coeffs xs ys \<le> squared_error cs xs ys)"

definition interpolates :: "real \<Rightarrow> real \<Rightarrow> real \<Rightarrow> real list \<Rightarrow> real list \<Rightarrow> bool" where
  "interpolates a b c xs ys \<longleftrightarrow> list_all2 (\<lambda>x y. a * x\<^sup>2 + b * x + c = y) xs ys"

section \<open>The run functions\<close>

text \<open>
  \<open>json.loads\<close>, \<open>json.dumps\<close> and \<open>str\<close> are parameters.  The \<open>run\<close> of the
  parameter-shift notebook is the one whose callee mutates an object: \<open>json.loads\<close>
  creates the list, and \<open>my_parameter_shift_grad\<close> updates that list in place.  It is
  modelled over a store of list objects addressed by their index: \<open>run\<close> allocates the
  parsed list at a fresh address and the gradient function works on the object at that
  address.  The other four \<open>run\<close> functions assign no object that exists before the
  call; they are functions of their input.
\<close>

type_synonym store = "real list list"

definition my_parameter_shift_grad_at ::
  "arith \<Rightarrow> (real list \<Rightarrow> exn + real) \<Rightarrow> nat \<Rightarrow> store \<Rightarrow> (exn + real list) \<times> store" where
  "my_parameter_shift_grad_at A qnode ref store =
     (let (result, params') = my_parameter_shift_grad A qnode (store ! ref)
      in (result, store[ref := params']))"

definition run_gradient ::
  "arith \<Rightarrow> (string \<Rightarrow> exn + real list) \<Rightarrow> (real list \<Rightarrow> string) \<Rightarrow> (real list \<Rightarrow> exn + real) \<Rightarrow>
   store \<Rightarrow> string \<Rightarrow> (exn + string) \<times> store" where
  "run_gradient A loads str qnode store test_case_input =
     (case loads test_case_input of
        Inl e \<Rightarrow> (Inl e, store)
      | Inr params \<Rightarrow>
          (let ref = length store;
               store = store @ [params];
               (gradient, store) = my_parameter_shift_grad_at A qnode ref store
           in case gradient of
                Inl e \<Rightarrow> (Inl e, store)
              | Inr g \<Rightarrow> (Inr (str g), store)))"

definition run_fidelity ::
  "(density \<Rightarrow> density \<Rightarrow> real) \<Rightarrow> (string \<Rightarrow> exn + real list) \<Rightarrow> (real list \<Rightarrow> string) \<Rightarrow>
   string \<Rightarrow> exn + string" where
  "run_fidelity fidelity loads str test_case_input =
     (case loads test_case_input of
        Inl e \<Rightarrow> Inl e
      | Inr probs \<Rightarrow>
          (case fidelities fidelity probs of
             Inl e \<Rightarrow> Inl e
           | Inr fids \<Rightarrow> Inr (str fids)))"

definition run_zne ::
  "arith \<Rightarrow> pennylane \<Rightarrow> (string \<Rightarrow> exn + real) \<Rightarrow> (real list \<Rightarrow> string) \<Rightarrow> string \<Rightarrow> exn + string" where
  "run_zne A lib loads str test_case_input =
     (case loads test_case_input of
        Inl e \<Rightarrow> Inl e
      | Inr d \<Rightarrow>
          (let scale_factors = [1, 2, 3]
           in case extrapolation A lib d scale_factors of
                Inl e \<Rightarrow> Inl e
              | Inr energies \<Rightarrow> Inr (str energies)))"

definition run_htcnot :: "(parsed_output \<Rightarrow> string) \<Rightarrow> string \<Rightarrow> exn + string" where
  "run_htcnot dumps input = Inr (dumps run_output_htcnot)"

definition run_u3cnot :: "(parsed_output \<Rightarrow> string) \<Rightarrow> string \<Rightarrow> exn + string" where
  "run_u3cnot dumps input = Inr (dumps run_output_u3cnot)"

section \<open>Example data\<close>

text \<open>
  The test case of the parameter-shift notebook, and the concrete stand-ins the closed
  examples below are evaluated on: \<open>json.loads\<close> restricted to the literals that occur,
  a \<open>run\<close> of a wrong solution, a \<open>run\<close> that raises, a \<open>run\<close> whose output list has two
  entries where three are expected, a \<open>run\<close> interrupted from the keyboard, and a parsed
  output whose matrix is SWAP but whose gate tape has no T gate.
\<close>

definition test_cases_gradient :: "(string \<times> string) list" where
  "test_cases_gradient = [(''[1.23, 0.6, 4.56]'', ''[0.08144, -0.33706, -0.37944]'')]"

definition loads_example :: "string \<Rightarrow> exn + real list" where
  "loads_example s =
     (if s = ''[0.08144, -0.33706, -0.37944]'' then
        Inr [8144 / 10 ^ 5, - (33706 / 10 ^ 5), - (37944 / 10 ^ 5)]
      else if s = ''[0.0, 0.0, 0.0]'' then Inr [0, 0, 0]
      else if s = ''[1.0, 2.0]'' then Inr [1, 2]
      else Inl (ValueError ''Expecting value''))"

definition run_wrong :: "string \<Rightarrow> exn + string" where
  "run_wrong test_case_input = Inr ''[0.0, 0.0, 0.0]''"

definition run_raising :: "string \<Rightarrow> exn + string" where
  "run_raising test_case_input = Inl (IndexError ''list index out of range'')"

definition run_two_entries :: "string \<Rightarrow> exn + string" where
  "run_two_entries test_case_input = Inr ''[1.0, 2.0]''"

definition run_interrupted :: "string \<Rightarrow> exn + string" where
  "run_interrupted test_case_input = Inl KeyboardInterrupt"

definition output_without_T :: parsed_output where
  "output_without_T = \<lparr>matrix = SWAP_matrix, gates = [''Hadamard'', ''CNOT'', ''Hadamard'']\<rparr>"

definition loads_without_T :: "string \<Rightarrow> exn + parsed_output" where
  "loads_without_T s = Inr output_without_T"

text \<open>
  A stand-in for the library in the closed example of the VQE notebook: the ideal energy
  is \<open>-1\<close>, the folded QNode with the scale factor \<open>s\<close> has the energy \<open>s\<^sup>2\<close>, and the
  fit of the points \<open>(1, 1)\<close>, \<open>(2, 4)\<close>, \<open>(3, 9)\<close> is \<open>x\<^sup>2\<close>.
\<close>

definition example_pennylane :: pennylane where
  "example_pennylane =
     \<lparr>QNode = (\<lambda>d dev param. case dev of Default_mixed \<Rightarrow> - 1 | Insert_DepolarizingChannel s dev' \<Rightarrow> 0),
      fold_global = (\<lambda>qnode scale_factor param. scale_factor\<^sup>2),
      opt_step = (\<lambda>stepsize qnode param. param),
      polyfit = (\<lambda>xs ys deg. [1, 0, 0])\<rparr>"

section \<open>Properties of the checkers\<close>

lemma allclose_same_length:
  "length a = length b \<Longrightarrow>
   allclose a b rtol = Inr (\<forall>i<length b. \<bar>a ! i - b ! i\<bar> \<le> atol + rtol * \<bar>b ! i\<bar>)"
  by (auto simp: allclose_def broadcast_def list_all_length isclose_def)

lemma check_numeric_returns_None:
  "check_numeric rtol msg loads s e = Inr v \<Longrightarrow> v = PyNone"
  by (auto simp: check_numeric_def split: sum.splits if_splits)

lemma check_htcnot_returns_None: "check_htcnot loads u e = Inr v \<Longrightarrow> v = PyNone"
  by (auto simp: check_htcnot_def split: sum.splits if_splits)

lemma check_u3cnot_returns_None: "check_u3cnot loads u e = Inr v \<Longrightarrow> v = PyNone"
  by (auto simp: check_u3cnot_def split: sum.splits if_splits)

lemma check_numeric_accepts:
  "check_numeric rtol msg loads s e = Inr PyNone \<longleftrightarrow>
     (\<exists>sol expected. loads s = Inr sol \<and> loads e = Inr expected
        \<and> allclose sol expected rtol = Inr True)"
  by (auto simp: check_numeric_def split: sum.splits if_splits)

lemma three_names_iff:
  assumes "a \<noteq> b" "a \<noteq> c" "b \<noteq> c"
  shows "length (remdups g) = 3 \<and> a \<in> set g \<and> b \<in> set g \<and> c \<in> set g \<longleftrightarrow> set g = {a, b, c}"
proof
  assume h: "length (remdups g) = 3 \<and> a \<in> set g \<and> b \<in> set g \<and> c \<in> set g"
  then have "card (set g) = 3" by (simp add: length_remdups_card_conv)
  moreover have "card {a, b, c} = 3" using assms by simp
  moreover have "{a, b, c} \<subseteq> set g" using h by simp
  ultimately show "set g = {a, b, c}"
    by (metis List.finite_set card_subset_eq)
next
  assume "set g = {a, b, c}"
  then show "length (remdups g) = 3 \<and> a \<in> set g \<and> b \<in> set g \<and> c \<in> set g"
    using assms by (simp add: length_remdups_card_conv)
qed

lemma two_names_iff:
  assumes "a \<noteq> b"
  shows "length (remdups g) = 2 \<and> a \<in> set g \<and> b \<in> set g \<longleftrightarrow> set g = {a, b}"
proof
  assume h: "length (remdups g) = 2 \<and> a \<in> set g \<and> b \<in> set g"
  then have "card (set g) = 2" by (simp add: length_remdups_card_conv)
  moreover have "card {a, b} = 2" using assms by simp
  moreover have "{a, b} \<subseteq> set g" using h by simp
  ultimately show "set g = {a, b}"
    by (metis List.finite_set card_subset_eq)
next
  assume "set g = {a, b}"
  then show "length (remdups g) = 2 \<and> a \<in> set g \<and> b \<in> set g"
    using assms by (simp add: length_remdups_card_conv)
qed

lemma check_htcnot_accepts:
  "check_htcnot loads u e = Inr PyNone \<longleftrightarrow>
     (\<exists>po. loads u = Inr po \<and> allclose2 (matrix po) SWAP_matrix (1 / 10 ^ 5) = Inr True
        \<and> set (gates po) = {''Hadamard'', ''CNOT'', ''T''})"
proof -
  have n: "\<And>g. length (remdups g) = 3 \<and> ''Hadamard'' \<in> set g \<and> ''CNOT'' \<in> set g \<and> ''T'' \<in> set g
      \<longleftrightarrow> set g = {''Hadamard'', ''CNOT'', ''T''}"
    by (rule three_names_iff) simp_all
  show ?thesis
    unfolding check_htcnot_def
    by (cases "loads u") (auto simp: n split: sum.splits if_splits)
qed

lemma check_u3cnot_accepts:
  "check_u3cnot loads u e = Inr PyNone \<longleftrightarrow>
     (\<exists>po. loads u = Inr po \<and> allclose2 (matrix po) solution (1 / 10 ^ 5) = Inr True
        \<and> set (gates po) = {''U3'', ''CNOT''})"
proof -
  have n: "\<And>g. length (remdups g) = 2 \<and> ''U3'' \<in> set g \<and> ''CNOT'' \<in> set g
      \<longleftrightarrow> set g = {''U3'', ''CNOT''}"
    by (rule two_names_iff) simp_all
  show ?thesis
    unfolding check_u3cnot_def
    by (cases "loads u") (auto simp: n split: sum.splits if_splits)
qed

lemma allclose2_SWAP_self: "allclose2 SWAP_matrix SWAP_matrix (1 / 10 ^ 5) = Inr True"
  by (simp add: allclose2_def rectangular_def SWAP_matrix_def broadcast_def isclose_def atol_def)

text \<open>
  Claim C1, as stated, fails: numeric closeness is not the only condition the checkers
  of the two universality notebooks test.  A parsed output whose matrix is exactly the
  SWAP matrix, but whose gate names are only Hadamard and CNOT, is numerically close and
  is still rejected with an assertion error.
\<close>

theorem check_closeness_only_counterexample:
  "allclose2 (matrix output_without_T) SWAP_matrix (1 / 10 ^ 5) = Inr True
   \<and> check_htcnot loads_without_T ''anything'' ''No output'' = Inl (AssertionError [])"
  using allclose2_SWAP_self
  by (simp add: check_htcnot_def loads_without_T_def output_without_T_def)

text \<open>
  Claim C1, amended: a checker returns normally exactly when both strings parse and the
  parsed solution is \<open>allclose\<close> to the expected value (elementwise
  \<open>|a - b| \<le> 1e-8 + rtol * |b|\<close>), with \<open>rtol\<close> 1e-4 for the parameter-shift and the
  bitflip notebook, 1e-2 for the VQE notebook and 1e-5 for the two universality
  notebooks; and, in the two universality notebooks, the set of gate names is moreover
  exactly \<open>{Hadamard, CNOT, T}\<close>, respectively \<open>{U3, CNOT}\<close>.
\<close>

theorem check_accepts_iff:
  "(check_gradient loads s e = Inr PyNone \<longleftrightarrow>
     (\<exists>sol expected. loads s = Inr sol \<and> loads e = Inr expected
        \<and> allclose sol expected (1 / 10 ^ 4) = Inr True))
   \<and> (check_fidelity loads s e = Inr PyNone \<longleftrightarrow>
     (\<exists>sol expected. loads s = Inr sol \<and> loads e = Inr expected
        \<and> allclose sol expected (1 / 10 ^ 4) = Inr True))
   \<and> (check_zne loads s e = Inr PyNone \<longleftrightarrow>
     (\<exists>sol expected. loads s = Inr sol \<and> loads e = Inr expected
        \<and> allclose sol expected (1 / 10 ^ 2) = Inr True))
   \<and> (check_htcnot loads' u e = Inr PyNone \<longleftrightarrow>
     (\<exists>po. loads' u = Inr po \<and> allclose2 (matrix po) SWAP_matrix (1 / 10 ^ 5) = Inr True
        \<and> set (gates po) = {''Hadamard'', ''CNOT'', ''T''}))
   \<and> (check_u3cnot loads' u e = Inr PyNone \<longleftrightarrow>
     (\<exists>po. loads' u = Inr po \<and> allclose2 (matrix po) solution (1 / 10 ^ 5) = Inr True
        \<and> set (gates po) = {''U3'', ''CNOT''}))"
  unfolding check_gradient_def check_fidelity_def check_zne_def
  by (intro conjI check_numeric_accepts check_htcnot_accepts check_u3cnot_accepts)

section \<open>Properties of the driver loop\<close>

lemma str_nat_0: "str_nat 0 = ''0''"
  by (simp add: str_nat.simps digit_char_def)

lemma driver_loop_failure_origin:
  "snd (driver_loop run check i tcs out) = Some exc \<Longrightarrow>
   \<exists>input expected. (input, expected) \<in> set tcs \<and>
      (run input = Inl exc \<and> \<not> is_Exception exc
       \<or> (\<exists>outp. run input = Inr outp \<and> check outp expected = Inl exc))"
proof (induction tcs arbitrary: i out)
  case Nil
  then show ?case by simp
next
  case (Cons tc tcs)
  obtain input expected where tc: "tc = (input, expected)" by (cases tc)
  show ?case
  proof (cases "run input")
    case (Inl e)
    show ?thesis
    proof (cases "is_Exception e")
      case True
      with Cons.prems tc Inl have
        "snd (driver_loop run check (Suc i) tcs
           ((out @ [running_line i input]) @ [runtime_error_line e])) = Some exc"
        by (simp add: Let_def)
      from Cons.IH [OF this] show ?thesis by auto
    next
      case False
      with Cons.prems tc Inl have "e = exc" by (simp add: Let_def)
      with False Inl tc show ?thesis by auto
    qed
  next
    case (Inr outp)
    show ?thesis
    proof (cases "check outp expected")
      case (Inl e)
      with Cons.prems tc Inr have "e = exc" by (simp add: Let_def)
      with Inl Inr tc show ?thesis by auto
    next
      case r: (Inr message)
      with Cons.prems tc Inr have
        "\<exists>out'. snd (driver_loop run check (Suc i) tcs out') = Some exc"
        by (auto simp: Let_def split: if_splits)
      then obtain out' where "snd (driver_loop run check (Suc i) tcs out') = Some exc" ..
      from Cons.IH [OF this] show ?thesis by auto
    qed
  qed
qed

lemma driver_loop_lines:
  assumes "\<And>outp e v. check outp e = Inr v \<Longrightarrow> \<not> truthy v"
  shows "l \<in> set (fst (driver_loop run check i tcs out)) \<Longrightarrow> l \<in> set out \<or> hd l \<noteq> CHR ''W''"
proof (induction tcs arbitrary: i out)
  case Nil
  then show ?case by simp
next
  case (Cons tc tcs)
  obtain input expected where tc: "tc = (input, expected)" by (cases tc)
  have r: "hd (running_line i input) \<noteq> CHR ''W''" by (simp add: running_line_def)
  show ?case
  proof (cases "run input")
    case (Inl e)
    have e: "hd (runtime_error_line e) \<noteq> CHR ''W''" by (simp add: runtime_error_line_def)
    show ?thesis
    proof (cases "is_Exception e")
      case True
      with Cons.prems tc Inl have
        "l \<in> set (fst (driver_loop run check (Suc i) tcs
           ((out @ [running_line i input]) @ [runtime_error_line e])))"
        by (simp add: Let_def)
      from Cons.IH [OF this] r e show ?thesis by auto
    next
      case False
      with Cons.prems tc Inl r show ?thesis by (auto simp: Let_def)
    qed
  next
    case (Inr outp)
    show ?thesis
    proof (cases "check outp expected")
      case (Inl e)
      with Cons.prems tc Inr r show ?thesis by (auto simp: Let_def)
    next
      case c: (Inr message)
      with assms have "\<not> truthy message" by blast
      with Cons.prems tc Inr c have
        "l \<in> set (fst (driver_loop run check (Suc i) tcs
           ((out @ [running_line i input]) @ [correct_line])))"
        by (simp add: Let_def)
      from Cons.IH [OF this] r show ?thesis by (auto simp: correct_line_def)
    qed
  qed
qed

lemma driver_never_wrong_answer:
  assumes "\<And>outp e v. check outp e = Inr v \<Longrightarrow> v = PyNone"
  shows "wrong_answer_line a b \<notin> set (fst (driver run check tcs))"
proof
  assume "wrong_answer_line a b \<in> set (fst (driver run check tcs))"
  moreover have "\<And>outp e v. check outp e = Inr v \<Longrightarrow> \<not> truthy v"
    using assms by fastforce
  ultimately have "hd (wrong_answer_line a b) \<noteq> CHR ''W''"
    using driver_loop_lines [of check "wrong_answer_line a b" run 0 tcs "[]"]
    by (simp add: driver_def)
  then show False by (simp add: wrong_answer_line_def)
qed

text \<open>
  Claim C7 fails on the code.  The checkers never return a message: they return
  \<open>None\<close> or raise (\<open>check_numeric_returns_None\<close>, \<open>check_htcnot_returns_None\<close>,
  \<open>check_u3cnot_returns_None\<close>), so with them the driver prints no line
  \<open>Wrong Answer ...\<close> on any list of test cases (\<open>driver_never_wrong_answer\<close>).
  When the output of \<open>run\<close> does not match the expected value, the assertion error of
  \<open>check\<close> leaves the loop after the header line.  Here \<open>run\<close> yields
  \<open>[0.0, 0.0, 0.0]\<close> on the notebook's test case.
\<close>

theorem driver_mismatch_raises:
  "driver run_wrong (check_gradient loads_example) test_cases_gradient =
   ([''Running test case 0 with input '' @ [CHR 0x27] @ ''[1.23, 0.6, 4.56]'' @ [CHR 0x27] @ ''...''],
    Some (AssertionError (''Your gradient isn'' @ [CHR 0x27] @ ''t quite right!'')))"
  by (simp add: driver_def test_cases_gradient_def run_wrong_def check_gradient_def
      check_numeric_def loads_example_def allclose_def broadcast_def isclose_def atol_def
      running_line_def str_nat_0)

lemma check_gradient_two_entries:
  "check_gradient loads_example ''[1.0, 2.0]'' ''[0.08144, -0.33706, -0.37944]''
     = Inl (ValueError ''operands could not be broadcast together'')"
  by (simp add: check_gradient_def check_numeric_def loads_example_def allclose_def
      broadcast_def broadcast_error_def)

text \<open>
  Claim C8, as stated, fails in two places.  An assertion failure is not the only
  exception of \<open>check\<close> that surfaces: on an output list with two entries
  \<open>np.allclose\<close> cannot broadcast it against the three expected values and raises a
  \<open>ValueError\<close>, which leaves the loop like the assertion failure does.  And the handler
  does not catch every exception of \<open>run\<close>: a \<open>KeyboardInterrupt\<close> is no instance of
  \<open>Exception\<close> and leaves the loop, no \<open>Runtime Error.\<close> line being printed.
\<close>

theorem driver_other_failures_counterexample:
  "driver run_two_entries (check_gradient loads_example) test_cases_gradient =
     ([''Running test case 0 with input '' @ [CHR 0x27] @ ''[1.23, 0.6, 4.56]'' @ [CHR 0x27] @ ''...''],
      Some (ValueError ''operands could not be broadcast together''))
   \<and> driver run_interrupted (check_gradient loads_example) test_cases_gradient =
     ([''Running test case 0 with input '' @ [CHR 0x27] @ ''[1.23, 0.6, 4.56]'' @ [CHR 0x27] @ ''...''],
      Some KeyboardInterrupt)"
  using check_gradient_two_entries
  by (simp add: driver_def test_cases_gradient_def run_two_entries_def run_interrupted_def
      running_line_def str_nat_0)

text \<open>
  Claim C8, amended.  When \<open>run\<close> raises an instance of \<open>Exception\<close>, the iteration
  prints the header and \<open>Runtime Error.\<close> with the exception's message and goes on to
  the next test case; whenever \<open>run\<close> raises, the outcome of the iteration is the same
  for every \<open>check\<close> (it is not called).  An exception of \<open>run\<close> that is no instance of
  \<open>Exception\<close> leaves the loop after the header, and so does every exception that
  \<open>check\<close> raises on the output of a \<open>run\<close> that returned, an assertion failure or any
  other.  These are the only exceptions that leave the driver.
\<close>

theorem driver_handles_run_exceptions:
  "(run input = Inl exc \<and> is_Exception exc \<longrightarrow>
      driver_loop run check i ((input, expected_output) # rest) out =
      driver_loop run check (Suc i) rest (out @ [running_line i input, runtime_error_line exc]))
   \<and> (run input = Inl exc \<longrightarrow>
      driver_loop run check i [(input, expected_output)] out =
      driver_loop run check' i [(input, expected_output)] out)
   \<and> (run input = Inl exc \<and> \<not> is_Exception exc \<longrightarrow>
      driver_loop run check i ((input, expected_output) # rest) out =
      (out @ [running_line i input], Some exc))
   \<and> (run input = Inr outp \<and> check outp expected_output = Inl exc \<longrightarrow>
      driver_loop run check i ((input, expected_output) # rest) out =
      (out @ [running_line i input], Some exc))
   \<and> (snd (driver run check test_cases) = Some exc \<longrightarrow>
      (\<exists>inp expected. (inp, expected) \<in> set test_cases \<and>
         (run inp = Inl exc \<and> \<not> is_Exception exc
          \<or> (\<exists>outp'. run inp = Inr outp' \<and> check outp' expected = Inl exc))))"
  using driver_loop_failure_origin [of run check 0 test_cases "[]" exc]
  by (simp add: Let_def driver_def)

theorem driver_handles_run_exceptions_witness:
  "driver_loop run_raising (check_gradient loads_example) 0 test_cases_gradient [] =
     ([running_line 0 ''[1.23, 0.6, 4.56]'', ''Runtime Error. list index out of range''], None)
   \<and> driver_loop run_interrupted (check_gradient loads_example) 0 test_cases_gradient [] =
     ([running_line 0 ''[1.23, 0.6, 4.56]''], Some KeyboardInterrupt)
   \<and> driver_loop run_two_entries (check_gradient loads_example) 0 test_cases_gradient [] =
     ([running_line 0 ''[1.23, 0.6, 4.56]''],
      Some (ValueError ''operands could not be broadcast together''))
   \<and> driver_loop run_raising (check_gradient loads_example) 0 test_cases_gradient [] =
     driver_loop run_raising (\<lambda>outp expected. Inr (PyStr ''message'')) 0 test_cases_gradient []"
proof -
  have r: "run_raising ''[1.23, 0.6, 4.56]'' = Inl (IndexError ''list index out of range'')"
    by (simp add: run_raising_def)
  have k: "run_interrupted ''[1.23, 0.6, 4.56]'' = Inl KeyboardInterrupt"
    by (simp add: run_interrupted_def)
  have w: "run_two_entries ''[1.23, 0.6, 4.56]'' = Inr ''[1.0, 2.0]''"
    by (simp add: run_two_entries_def)
  note c = check_gradient_two_entries
  from driver_handles_run_exceptions [where run = run_raising
      and input = "''[1.23, 0.6, 4.56]''" and exc = "IndexError ''list index out of range''"
      and check = "check_gradient loads_example" and i = 0
      and expected_output = "''[0.08144, -0.33706, -0.37944]''" and rest = "[]" and out = "[]"] r
  have 1: "driver_loop run_raising (check_gradient loads_example) 0 test_cases_gradient [] =
     ([running_line 0 ''[1.23, 0.6, 4.56]'', ''Runtime Error. list index out of range''], None)"
    by (simp add: test_cases_gradient_def runtime_error_line_def)
  from driver_handles_run_exceptions [where run = run_interrupted
      and input = "''[1.23, 0.6, 4.56]''" and exc = KeyboardInterrupt
      and check = "check_gradient loads_example" and i = 0
      and expected_output = "''[0.08144, -0.33706, -0.37944]''" and rest = "[]" and out = "[]"] k
  have 2: "driver_loop run_interrupted (check_gradient loads_example) 0 test_cases_gradient [] =
     ([running_line 0 ''[1.23, 0.6, 4.56]''], Some KeyboardInterrupt)"
    by (simp add: test_cases_gradient_def)
  from driver_handles_run_exceptions [where run = run_two_entries
      and input = "''[1.23, 0.6, 4.56]''"
      and exc = "ValueError ''operands could not be broadcast together''"
      and check = "check_gradient loads_example" and i = 0
      and expected_output = "''[0.08144, -0.33706, -0.37944]''" and rest = "[]" and out = "[]"
      and outp = "''[1.0, 2.0]''"] w c
  have 3: "driver_loop run_two_entries (check_gradient loads_example) 0 test_cases_gradient [] =
     ([running_line 0 ''[1.23, 0.6, 4.56]''],
      Some (ValueError ''operands could not be broadcast together''))"
    by (simp add: test_cases_gradient_def)
  from driver_handles_run_exceptions [where run = run_raising
      and input = "''[1.23, 0.6, 4.56]''" and exc = "IndexError ''list index out of range''"
      and check = "check_gradient loads_example" and i = 0
      and check' = "\<lambda>outp expected. Inr (PyStr ''message'')"
      and expected_output = "''[0.08144, -0.33706, -0.37944]''" and out = "[]"] r
  have 4: "driver_loop run_raising (check_gradient loads_example) 0 test_cases_gradient [] =
     driver_loop run_raising (\<lambda>outp expected. Inr (PyStr ''message'')) 0 test_cases_gradient []"
    unfolding test_cases_gradient_def by blast
  from 1 2 3 4 show ?thesis by blast
qed

section \<open>Properties of the rounded arithmetic\<close>

lemma round_half_even_error: "\<bar>of_int (round_half_even x) - x\<bar> \<le> 1 / 2"
  unfolding round_half_even_def Let_def by (auto simp: abs_if) linarith+

lemma round_half_even_of_int [simp]: "round_half_even (of_int k) = k"
  by (simp add: round_half_even_def)

lemma float_round_at:
  fixes e :: int
  assumes "2 powr of_int (e + 52) \<le> \<bar>x\<bar>" "\<bar>x\<bar> < 2 powr of_int (e + 53)"
  shows "float_round x = of_int (round_half_even (x / 2 powr of_int e)) * 2 powr of_int e"
proof -
  have "0 < 2 powr real_of_int (e + 52)" by simp
  with assms(1) have x: "x \<noteq> 0" by auto
  have "\<lfloor>log 2 \<bar>x\<bar>\<rfloor> = e + 52"
    using assms x by (subst floor_log_eq_powr_iff) (simp_all add: algebra_simps)
  then show ?thesis using x by (simp add: float_round_def)
qed

lemma float_round_error: "\<bar>float_round x - x\<bar> \<le> \<bar>x\<bar> / 2 ^ 53"
proof (cases "x = 0")
  case True
  then show ?thesis by (simp add: float_round_def)
next
  case False
  define e where "e = \<lfloor>log 2 \<bar>x\<bar>\<rfloor> - 52"
  define s :: real where "s = 2 powr of_int e"
  have s: "0 < s" by (simp add: s_def)
  have fr: "float_round x = of_int (round_half_even (x / s)) * s"
    using False by (simp add: float_round_def e_def s_def Let_def)
  have "\<bar>of_int (round_half_even (x / s)) - x / s\<bar> \<le> 1 / 2"
    by (rule round_half_even_error)
  then have "\<bar>of_int (round_half_even (x / s)) - x / s\<bar> * s \<le> 1 / 2 * s"
    using s by (intro mult_right_mono) auto
  moreover have "\<bar>of_int (round_half_even (x / s)) - x / s\<bar> * s = \<bar>float_round x - x\<bar>"
  proof -
    have "\<bar>of_int (round_half_even (x / s)) - x / s\<bar> * s
        = \<bar>(of_int (round_half_even (x / s)) - x / s) * s\<bar>"
      using s by (simp add: abs_mult)
    also have "(of_int (round_half_even (x / s)) - x / s) * s = float_round x - x"
      using s by (simp add: fr algebra_simps)
    finally show ?thesis .
  qed
  ultimately have 1: "\<bar>float_round x - x\<bar> \<le> s / 2" by simp
  have "2 powr of_int (e + 52) \<le> \<bar>x\<bar>"
  proof -
    have "\<lfloor>log 2 \<bar>x\<bar>\<rfloor> = e + 52" by (simp add: e_def)
    then show ?thesis using False by (subst (asm) floor_log_eq_powr_iff) auto
  qed
  moreover have "2 powr of_int (e + 52) = s * 2 ^ 52"
    by (simp add: s_def powr_add)
  ultimately have "s * 2 ^ 52 \<le> \<bar>x\<bar>" by simp
  then have "s / 2 \<le> \<bar>x\<bar> / 2 ^ 53" by (simp add: field_simps)
  with 1 show ?thesis by linarith
qed

lemma round_half_even_numeral [simp]: "round_half_even (numeral n) = numeral n"
  using round_half_even_of_int [of "numeral n"] by simp

lemma round_half_even_neg_numeral [simp]: "round_half_even (- numeral n) = - numeral n"
  using round_half_even_of_int [of "- numeral n"] by simp

lemma float_round_scaled:
  fixes k :: nat
  assumes "2 ^ 52 \<le> \<bar>x\<bar> * 2 ^ k" "\<bar>x\<bar> * 2 ^ k < 2 ^ 53"
  shows "float_round x = of_int (round_half_even (x * 2 ^ k)) / 2 ^ k"
proof -
  have p: "2 powr (- real k) = 1 / (2::real) ^ k"
    by (simp add: powr_minus powr_realpow divide_inverse)
  have a: "2 powr (52 - real k) = (2::real) ^ 52 / 2 ^ k"
    by (simp add: powr_diff powr_realpow)
  have b: "2 powr (53 - real k) = (2::real) ^ 53 / 2 ^ k"
    by (simp add: powr_diff powr_realpow)
  have "float_round x = of_int (round_half_even (x / 2 powr of_int (- int k))) * 2 powr of_int (- int k)"
    using assms by (intro float_round_at) (simp_all add: a b field_simps)
  then show ?thesis by (simp add: p)
qed

lemma float_round_0 [simp]: "float_round 0 = 0"
  by (simp add: float_round_def)

lemma fr1: "float_round (884279719003555 / 562949953421312) = 884279719003555 / 562949953421312"
  by (subst float_round_scaled [where k = 52]) simp_all

lemma fr1m: "float_round (- (884279719003555 / 562949953421312)) = - (884279719003555 / 562949953421312)"
  by (subst float_round_scaled [where k = 52]) simp_all

lemma fr2: "float_round (884279719003555 / 281474976710656) = 884279719003555 / 281474976710656"
  by (subst float_round_scaled [where k = 51]) simp_all

lemma fr3: "float_round (2652839157010665 / 281474976710656) = 2652839157010665 / 281474976710656"
  by (subst float_round_scaled [where k = 49]) simp_all

lemma fr4: "float_round (2652839157010665 / 562949953421312) = 2652839157010665 / 562949953421312"
  by (subst float_round_scaled [where k = 50]) simp_all

lemma fr4m: "float_round (- (2652839157010665 / 562949953421312)) = - (2652839157010665 / 562949953421312)"
  by (subst float_round_scaled [where k = 50]) simp_all

lemma fr5: "float_round (1811004864519280641 / 1152921504606846976) = 884279719003555 / 562949953421312"
  by (subst float_round_scaled [where k = 52]) (simp_all add: round_half_even_def)

lemma shifts_double:
  "fst (shifts_and_coeffs double_arith) = [884279719003555 / 562949953421312, 2652839157010665 / 562949953421312]"
  by (simp add: shifts_and_coeffs_def double_arith_def fr1 fr3 fr4)

lemma restored_double_tiny: "restored double_arith (1 / 2 ^ 60) = 0"
  unfolding restored_def shifted_def shifts_double
  by (simp add: double_arith_def fr1 fr1m fr2 fr3 fr4 fr4m fr5)

lemma test_input_double: "float_round (123 / 100) = 2769713770832855 / 2251799813685248"
  by (subst float_round_scaled [where k = 52]) (simp_all add: round_half_even_def)

lemma restored_double_test_input:
  "restored double_arith (2769713770832855 / 2251799813685248)
     = 346214221354107 / 281474976710656"
proof -
  let ?x = "2769713770832855 / 2251799813685248 :: real"
  let ?s1 = "884279719003555 / 562949953421312 :: real"
  let ?d1 = "884279719003555 / 281474976710656 :: real"
  let ?a1 = "6306832646847075 / 2251799813685248 :: real"
  let ?b1 = "- (767405105181365 / 2251799813685248) :: real"
  let ?s2 = "2652839157010665 / 562949953421312 :: real"
  let ?d2 = "2652839157010665 / 281474976710656 :: real"
  let ?a2 = "3345267599718879 / 562949953421312 :: real"
  let ?b2 = "- (1960410714302451 / 562949953421312) :: real"
  let ?x' = "346214221354107 / 281474976710656 :: real"
  have fl: "fl double_arith = float_round" by (simp add: double_arith_def)
  have 1: "float_round (?x + ?s1) = ?a1"
    by (subst float_round_scaled [where k = 51]) (simp_all add: round_half_even_def)
  have 2: "float_round (2 * ?s1) = ?d1"
    by (subst float_round_scaled [where k = 51]) (simp_all add: round_half_even_def)
  have 3: "float_round (?a1 - ?d1) = ?b1"
    by (subst float_round_scaled [where k = 54]) (simp_all add: round_half_even_def)
  have 4: "float_round (?b1 + ?s1) = ?x"
    by (subst float_round_scaled [where k = 52]) (simp_all add: round_half_even_def)
  have 5: "float_round (?x + ?s2) = ?a2"
    by (subst float_round_scaled [where k = 50]) (simp_all add: round_half_even_def)
  have 6: "float_round (2 * ?s2) = ?d2"
    by (subst float_round_scaled [where k = 49]) (simp_all add: round_half_even_def)
  have 7: "float_round (?a2 - ?d2) = ?b2"
    by (subst float_round_scaled [where k = 51]) (simp_all add: round_half_even_def)
  have 8: "float_round (?b2 + ?s2) = ?x'"
    by (subst float_round_scaled [where k = 52]) (simp_all add: round_half_even_def)
  have s: "fst (shifts_and_coeffs double_arith) ! 0 = ?s1"
    "fst (shifts_and_coeffs double_arith) ! 1 = ?s2"
    by (simp_all add: shifts_double)
  show ?thesis
    unfolding restored_def shifted_def s fl 1 2 3 4 5 6 7 8 ..
qed

lemma abs_le_add: "\<bar>a - b\<bar> \<le> e \<Longrightarrow> \<bar>a\<bar> \<le> \<bar>b\<bar> + (e::real)"
  by linarith

lemma shifted_error:
  assumes fl: "\<And>r. \<bar>fl A r - r\<bar> \<le> u * \<bar>r\<bar>" and u: "0 \<le> u" "u \<le> 1 / 4"
  shows "\<bar>shifted A s x - x\<bar> \<le> u * (4 * \<bar>x\<bar> + 13 * \<bar>s\<bar>)"
proof -
  define y1 where "y1 = fl A (x + s)"
  define d where "d = fl A (2 * s)"
  define y2 where "y2 = fl A (y1 - d)"
  define y3 where "y3 = fl A (y2 + s)"
  define E1 where "E1 = u * \<bar>x + s\<bar>"
  define Ed where "Ed = u * \<bar>2 * s\<bar>"
  define E2 where "E2 = u * \<bar>y1 - d\<bar>"
  define E3 where "E3 = u * \<bar>y2 + s\<bar>"
  have m: "u * \<bar>r\<bar> \<le> \<bar>r\<bar> / 4" for r :: real
    using mult_right_mono [OF u(2), of "\<bar>r\<bar>"] by simp
  have e1: "\<bar>y1 - (x + s)\<bar> \<le> E1" unfolding y1_def E1_def by (rule fl)
  have ed: "\<bar>d - 2 * s\<bar> \<le> Ed" unfolding d_def Ed_def by (rule fl)
  have e2: "\<bar>y2 - (y1 - d)\<bar> \<le> E2" unfolding y2_def E2_def by (rule fl)
  have e3: "\<bar>y3 - (y2 + s)\<bar> \<le> E3" unfolding y3_def E3_def by (rule fl)
  have m1: "E1 \<le> \<bar>x + s\<bar> / 4" unfolding E1_def by (rule m)
  have md: "Ed \<le> \<bar>2 * s\<bar> / 4" unfolding Ed_def by (rule m)
  have m2: "E2 \<le> \<bar>y1 - d\<bar> / 4" unfolding E2_def by (rule m)
  have by1: "\<bar>y1\<bar> \<le> 5 / 4 * (\<bar>x\<bar> + \<bar>s\<bar>)"
    using abs_le_add [OF e1] m1 abs_triangle_ineq [of x s] by argo
  have bd: "\<bar>d\<bar> \<le> 5 / 2 * \<bar>s\<bar>"
    using abs_le_add [OF ed] md by (simp add: abs_mult)
  have b2: "\<bar>y1 - d\<bar> \<le> 5 / 4 * \<bar>x\<bar> + 15 / 4 * \<bar>s\<bar>"
    using by1 bd abs_triangle_ineq4 [of y1 d] by argo
  have by2: "\<bar>y2\<bar> \<le> 25 / 16 * \<bar>x\<bar> + 75 / 16 * \<bar>s\<bar>"
    using abs_le_add [OF e2] m2 b2 by argo
  have b3: "\<bar>y2 + s\<bar> \<le> 25 / 16 * \<bar>x\<bar> + 91 / 16 * \<bar>s\<bar>"
    using by2 abs_triangle_ineq [of y2 s] by argo
  have "y3 - x = (y3 - (y2 + s)) + (y2 - (y1 - d)) + (y1 - (x + s)) - (d - 2 * s)"
    by simp
  then have "\<bar>y3 - x\<bar> \<le> \<bar>y3 - (y2 + s)\<bar> + \<bar>y2 - (y1 - d)\<bar> + \<bar>y1 - (x + s)\<bar> + \<bar>d - 2 * s\<bar>"
    by argo
  then have "\<bar>y3 - x\<bar> \<le> E3 + E2 + E1 + Ed"
    using e1 ed e2 e3 by argo
  also have "\<dots> = u * (\<bar>y2 + s\<bar> + \<bar>y1 - d\<bar> + \<bar>x + s\<bar> + \<bar>2 * s\<bar>)"
    by (simp add: algebra_simps E1_def E2_def E3_def Ed_def)
  also have "\<dots> \<le> u * (4 * \<bar>x\<bar> + 13 * \<bar>s\<bar>)"
  proof (rule mult_left_mono [OF _ u(1)])
    show "\<bar>y2 + s\<bar> + \<bar>y1 - d\<bar> + \<bar>x + s\<bar> + \<bar>2 * s\<bar> \<le> 4 * \<bar>x\<bar> + 13 * \<bar>s\<bar>"
    proof -
      have "\<bar>2 * s\<bar> = 2 * \<bar>s\<bar>" by (simp add: abs_mult)
      then show ?thesis using b2 b3 abs_triangle_ineq [of x s] by argo
    qed
  qed
  finally show ?thesis by (simp add: shifted_def y3_def y2_def y1_def d_def)
qed

lemma restored_error:
  assumes fl: "\<And>r. \<bar>fl A r - r\<bar> \<le> u * \<bar>r\<bar>" and u: "0 \<le> u" "u \<le> 1 / 4"
  shows "\<bar>restored A x - x\<bar>
    \<le> u * (12 * \<bar>x\<bar> + 26 * \<bar>fst (shifts_and_coeffs A) ! 0\<bar> + 13 * \<bar>fst (shifts_and_coeffs A) ! 1\<bar>)"
proof -
  define s0 where "s0 = fst (shifts_and_coeffs A) ! 0"
  define s1 where "s1 = fst (shifts_and_coeffs A) ! 1"
  define x1 where "x1 = shifted A s0 x"
  define F1 where "F1 = u * (4 * \<bar>x\<bar> + 13 * \<bar>s0\<bar>)"
  define F2 where "F2 = u * (4 * \<bar>x1\<bar> + 13 * \<bar>s1\<bar>)"
  define F3 where "F3 = u * (8 * \<bar>x\<bar> + 13 * \<bar>s0\<bar> + 13 * \<bar>s1\<bar>)"
  have a: "\<bar>x1 - x\<bar> \<le> F1"
    unfolding x1_def F1_def using assms by (rule shifted_error)
  have b: "\<bar>shifted A s1 x1 - x1\<bar> \<le> F2"
    unfolding F2_def using assms by (rule shifted_error)
  have "F1 \<le> (4 * \<bar>x\<bar> + 13 * \<bar>s0\<bar>) / 4"
    unfolding F1_def using mult_right_mono [OF u(2), of "4 * \<bar>x\<bar> + 13 * \<bar>s0\<bar>"] by simp
  with abs_le_add [OF a] have "\<bar>x1\<bar> \<le> 2 * \<bar>x\<bar> + 13 / 4 * \<bar>s0\<bar>"
    by argo
  then have "4 * \<bar>x1\<bar> + 13 * \<bar>s1\<bar> \<le> 8 * \<bar>x\<bar> + 13 * \<bar>s0\<bar> + 13 * \<bar>s1\<bar>"
    by argo
  from mult_left_mono [OF this u(1)] have "F2 \<le> F3"
    by (simp add: F2_def F3_def)
  moreover have "\<bar>shifted A s1 x1 - x\<bar> \<le> \<bar>shifted A s1 x1 - x1\<bar> + \<bar>x1 - x\<bar>"
    by argo
  ultimately have "\<bar>shifted A s1 x1 - x\<bar> \<le> F1 + F3"
    using a b by argo
  also have "\<dots> = u * (12 * \<bar>x\<bar> + 26 * \<bar>s0\<bar> + 13 * \<bar>s1\<bar>)"
    by (simp add: algebra_simps F1_def F3_def)
  finally show ?thesis by (simp add: restored_def x1_def s0_def s1_def)
qed

lemma double_arith_error: "\<bar>fl double_arith r - r\<bar> \<le> 1 / 2 ^ 53 * \<bar>r\<bar>"
  using float_round_error [of r] by (simp add: double_arith_def)

section \<open>The parameter-shift circuit in closed form\<close>

lemma upt3: "[0..<3] = [0, 1, 2]"
  by (simp add: upt_rec)

lemma sq2: "complex_of_real (sqrt 2) * complex_of_real (sqrt 2) = 2"
  by (metis of_real_mult of_real_numeral real_sqrt_mult_self abs_numeral)

lemma after_hadamards:
  "apply_ops (map Hadamard [0..<3]) (basis_state 3 (\<lambda>w. False)) = (\<lambda>b. 1 / (2 * sqrt 2))"
  apply (rule ext)
  apply (simp add: upt3 apply1_def basis_state_def Hadamard_matrix_def mat2_of_def)
  apply (simp add: field_simps sq2)
  done

lemma cis_minus_eq: "cis (- a) = of_real (cos a) - \<i> * of_real (sin a)"
  by (simp add: complex_eq_iff)

lemma apply_ops_append: "apply_ops (gs @ hs) \<psi> = apply_ops hs (apply_ops gs \<psi>)"
  by (induction gs arbitrary: \<psi>) simp_all

lemma circuit_final_state:
  "apply_ops (circuit_ops [t0, t1, t2]) (basis_state 3 (\<lambda>w. False)) = final_state (t0 / 2) (t1 / 2) (t2 / 2)"
proof -
  have "apply_ops (circuit_ops [t0, t1, t2]) (basis_state 3 (\<lambda>w. False))
      = apply_ops [CRX t0 1 2, CRY t1 0 1, CRZ t2 2 0] (\<lambda>b. 1 / (2 * sqrt 2))"
    unfolding circuit_ops_def by (simp only: apply_ops_append after_hadamards) simp
  also have "\<dots> = final_state (t0 / 2) (t1 / 2) (t2 / 2)"
    apply (rule ext)
    apply (simp add: apply1_def controlled_def RX_matrix_def RY_matrix_def RZ_matrix_def mat2_of_def
        final_state_def cis_minus_eq Let_def)
    apply (simp add: field_simps)
    done
  finally show ?thesis .
qed

lemma configs_3:
  "configs 3 = [(\<lambda>w. False), (\<lambda>w. False)(2 := True),
     (\<lambda>w. False)(1 := True), (\<lambda>w. False)(1 := True, 2 := True),
     (\<lambda>w. False)(0 := True), (\<lambda>w. False)(0 := True, 2 := True),
     (\<lambda>w. False)(0 := True, 1 := True), (\<lambda>w. False)(0 := True, 1 := True, 2 := True)]"
  by (simp add: numeral_3_eq_3 numeral_2_eq_2)

lemma ss: "sin x * sin x = 1 - cos x * cos (x::real)"
  using sin_cos_squared_add [of x] by (simp add: power2_eq_square)

lemma ss': "sin x * (sin x * y) = (1 - cos x * cos x) * (y::real)"
  using ss [of x] by (simp add: mult.assoc [symmetric])

lemma expval_final_state:
  "expval 3 [PauliZ 0, PauliZ 1, PauliX 2] (final_state a \<beta> \<gamma>)
     = cos \<gamma> - sin \<beta> * cos \<beta> * cos a"
  apply (simp add: expval_def configs_3 final_state_def apply1_def PauliZ_matrix_def PauliX_matrix_def
      mat2_of_def)
  apply (simp add: field_simps)
  apply (simp add: ss ss' algebra_simps)
  done

section \<open>Properties of the parameter-shift gradient\<close>

lemma iteration_params:
  assumes ok: "\<And>p. length p = length params \<Longrightarrow> \<exists>v. circuit p = Inr v"
    and i: "i < length params"
  shows "\<exists>g. iteration A circuit i (params, gradient) = (None, params[i := restored A (params ! i)], g)"
        (is "\<exists>g. ?it = _")
proof -
  obtain s0 s1 c0 c1 where sc: "shifts_and_coeffs A = ([s0, s1], [c0, c1])"
    by (simp add: shifts_and_coeffs_def)
  define p1 where "p1 = params[i := fl A (params ! i + s0)]"
  define p2 where "p2 = p1[i := fl A (p1 ! i - fl A (2 * s0))]"
  define p3 where "p3 = p2[i := fl A (p2 ! i + s0)]"
  define p4 where "p4 = p3[i := fl A (p3 ! i + s1)]"
  define p5 where "p5 = p4[i := fl A (p4 ! i - fl A (2 * s1))]"
  define p6 where "p6 = p5[i := fl A (p5 ! i + s1)]"
  have len: "length p1 = length params" "length p2 = length params" "length p4 = length params"
      "length p5 = length params"
    by (simp_all add: p1_def p2_def p3_def p4_def p5_def)
  obtain v1 where v1: "circuit p1 = Inr v1" using ok len by blast
  obtain v2 where v2: "circuit p2 = Inr v2" using ok len by blast
  obtain v4 where v4: "circuit p4 = Inr v4" using ok len by blast
  obtain v5 where v5: "circuit p5 = Inr v5" using ok len by blast
  have "\<exists>g. iteration A circuit i (params, gradient) = (None, p6, g)"
    unfolding iteration_def
    by (simp add: sc Let_def v1 v2 v4 v5
        p1_def [symmetric] p2_def [symmetric] p3_def [symmetric] p4_def [symmetric]
        p5_def [symmetric] p6_def [symmetric])
  moreover have "p6 = params[i := restored A (params ! i)]"
    using i by (simp add: p6_def p5_def p4_def p3_def p2_def p1_def restored_def shifted_def sc)
  ultimately show ?thesis by simp
qed

lemma grad_loop_params:
  assumes ok: "\<And>p. length p = n \<Longrightarrow> \<exists>v. circuit p = Inr v"
  shows "length params = n \<Longrightarrow> distinct js \<Longrightarrow> set js \<subseteq> {..<n} \<Longrightarrow>
    \<exists>g. grad_loop A circuit js (params, gradient) =
      (None, map (\<lambda>k. if k \<in> set js then restored A (params ! k) else params ! k) [0..<n], g)"
proof (induction js arbitrary: params gradient)
  case Nil
  then show ?case by (auto simp: map_nth)
next
  case (Cons j js)
  from Cons.prems have j: "j < length params" "j \<notin> set js" by auto
  define params1 where "params1 = params[j := restored A (params ! j)]"
  have "\<exists>g. iteration A circuit j (params, gradient) = (None, params1, g)"
    unfolding params1_def using ok Cons.prems(1) j(1) by (intro iteration_params) auto
  then obtain g1 where it: "iteration A circuit j (params, gradient) = (None, params1, g1)" ..
  have len1: "length params1 = n" using Cons.prems by (simp add: params1_def)
  from Cons.prems have "distinct js" "set js \<subseteq> {..<n}" by auto
  from Cons.IH [OF len1 this, of g1] obtain g2 where
    rec: "grad_loop A circuit js (params1, g1) =
      (None, map (\<lambda>k. if k \<in> set js then restored A (params1 ! k) else params1 ! k) [0..<n], g2)" ..
  have "map (\<lambda>k. if k \<in> set js then restored A (params1 ! k) else params1 ! k) [0..<n]
      = map (\<lambda>k. if k \<in> set (j # js) then restored A (params ! k) else params ! k) [0..<n]"
    using j Cons.prems(1) by (auto simp: params1_def nth_list_update)
  with it rec show ?case by simp
qed

lemma iteration_restores:
  assumes "iteration A c i (params, gradient) = (None, params', gradient')" "i < length params"
  shows "params' = params[i := restored A (params ! i)]"
proof -
  obtain s0 s1 c0 c1 where sc: "shifts_and_coeffs A = ([s0, s1], [c0, c1])"
    by (simp add: shifts_and_coeffs_def)
  show ?thesis
    using assms unfolding iteration_def
    by (simp add: sc Let_def restored_def shifted_def split: sum.splits)
qed

lemma grad_loop_restores:
  "grad_loop A c js (params, gradient) = (None, params', gradient') \<Longrightarrow>
   distinct js \<Longrightarrow> set js \<subseteq> {..<length params} \<Longrightarrow>
   params' = map (\<lambda>k. if k \<in> set js then restored A (params ! k) else params ! k) [0..<length params]"
proof (induction js arbitrary: params gradient)
  case Nil
  then show ?case by (simp add: map_nth)
next
  case (Cons j js)
  from Cons.prems have j: "j < length params" "j \<notin> set js" by auto
  obtain r p1 g1 where it: "iteration A c j (params, gradient) = (r, p1, g1)"
    by (metis prod_cases3)
  with Cons.prems(1) have r: "r = None" and rec: "grad_loop A c js (p1, g1) = (None, params', gradient')"
    by (auto split: option.splits)
  from iteration_restores [OF it [unfolded r] j(1)]
  have p1: "p1 = params[j := restored A (params ! j)]" .
  then have len: "length p1 = length params" by simp
  from Cons.prems have "distinct js" "set js \<subseteq> {..<length p1}" by (auto simp: len)
  from Cons.IH [OF rec this]
  have "params' = map (\<lambda>k. if k \<in> set js then restored A (p1 ! k) else p1 ! k) [0..<length p1]" .
  also have "\<dots> = map (\<lambda>k. if k \<in> set (j # js) then restored A (params ! k) else params ! k)
      [0..<length params]"
    using j by (auto simp: p1 nth_list_update)
  finally show ?case .
qed

lemma my_parameter_shift_grad_restores:
  assumes "my_parameter_shift_grad A c params = (Inr g, params')"
  shows "params' = map (restored A) params"
proof -
  from assms obtain g' where
    "grad_loop A c [0..<length params] (params, replicate (length params) 0) = (None, params', g')"
    by (auto simp: my_parameter_shift_grad_def Let_def split: prod.splits option.splits)
  moreover have "set [0..<length params] \<subseteq> {..<length params}" by auto
  ultimately have
    "params' = map (\<lambda>k. if k \<in> set [0..<length params] then restored A (params ! k) else params ! k)
       [0..<length params]"
    by (intro grad_loop_restores) simp_all
  also have "\<dots> = map (restored A) params"
    by (rule nth_equalityI) auto
  finally show ?thesis .
qed

lemma exact_shifts_and_coeffs:
  "shifts_and_coeffs exact_arith =
     ([pi / 2, pi * 3 / 2], [(sqrt 2 + 1) / (4 * sqrt 2), (sqrt 2 - 1) / (4 * sqrt 2)])"
  by (simp add: shifts_and_coeffs_def exact_arith_def)

lemma iteration_exact:
  assumes c: "\<And>p. length p = length params \<Longrightarrow> c p = Inr (f p)"
    and i: "i < length params" and len: "length gradient = length params"
  shows "iteration exact_arith c i (params, gradient) =
     (None, params, gradient[i := four_term_rule f params i])"
proof -
  have fl: "fl exact_arith = (\<lambda>x. x)" by (simp add: exact_arith_def)
  show ?thesis
    unfolding iteration_def exact_shifts_and_coeffs
    using i len
    by (simp add: Let_def fl c four_term_rule_def mult.commute)
qed

lemma circuit_value_closed:
  "circuit_value [t0, t1, t2] = cos (t2 / 2) - sin t1 * cos (t0 / 2) / 2"
proof -
  have "circuit_value [t0, t1, t2] = cos (t2 / 2) - sin (t1 / 2) * cos (t1 / 2) * cos (t0 / 2)"
    unfolding circuit_value_def circuit_final_state by (rule expval_final_state)
  moreover have "sin t1 = 2 * sin (t1 / 2) * cos (t1 / 2)"
    using sin_double [of "t1 / 2"] by simp
  ultimately show ?thesis by simp
qed

lemma cos_3pi4: "cos (3 * pi / 4) = - (sqrt 2 / 2)"
proof -
  have "cos (3 * pi / 4) = cos (pi - pi / 4)" by (simp add: field_simps)
  also have "\<dots> = - cos (pi / 4)" by (rule cos_pi_minus)
  finally show ?thesis by (simp add: cos_45)
qed

lemma sin_3pi4: "sin (3 * pi / 4) = sqrt 2 / 2"
proof -
  have "sin (3 * pi / 4) = sin (pi - pi / 4)" by (simp add: field_simps)
  also have "\<dots> = sin (pi / 4)" by (rule sin_pi_minus)
  finally show ?thesis by (simp add: sin_45)
qed

lemma half_angle_rule:
  "(sqrt 2 + 1) / (4 * sqrt 2) * (cos ((x + pi / 2) / 2) - cos ((x - pi / 2) / 2))
     - (sqrt 2 - 1) / (4 * sqrt 2) * (cos ((x + 3 * pi / 2) / 2) - cos ((x - 3 * pi / 2) / 2))
   = - sin (x / 2) / 2"
proof -
  have a: "(x + pi / 2) / 2 = x / 2 + pi / 4" "(x - pi / 2) / 2 = x / 2 - pi / 4"
    "(x + 3 * pi / 2) / 2 = x / 2 + 3 * pi / 4" "(x - 3 * pi / 2) / 2 = x / 2 - 3 * pi / 4"
    by (simp_all add: field_simps)
  have 1: "cos (x / 2 + pi / 4) - cos (x / 2 - pi / 4) = - (sqrt 2 * sin (x / 2))"
    by (simp add: cos_add cos_diff cos_45 sin_45)
  have 2: "cos (x / 2 + 3 * pi / 4) - cos (x / 2 - 3 * pi / 4) = - (sqrt 2 * sin (x / 2))"
    by (simp add: cos_add cos_diff cos_3pi4 sin_3pi4)
  have "(sqrt 2 + 1) / (4 * sqrt 2) * (- (sqrt 2 * sin (x / 2)))
      - (sqrt 2 - 1) / (4 * sqrt 2) * (- (sqrt 2 * sin (x / 2))) = - sin (x / 2) / 2"
    by (simp add: field_simps)
  then show ?thesis unfolding a 1 2 .
qed

lemma full_angle_rule:
  "(sqrt 2 + 1) / (4 * sqrt 2) * (sin (x + pi / 2) - sin (x - pi / 2))
     - (sqrt 2 - 1) / (4 * sqrt 2) * (sin (x + 3 * pi / 2) - sin (x - 3 * pi / 2))
   = cos x"
proof -
  have s: "sin (3 * pi / 2) = - 1" "cos (3 * pi / 2) = 0"
    using sin_3over2_pi cos_3over2_pi by (simp_all add: mult.commute)
  have 1: "sin (x + pi / 2) - sin (x - pi / 2) = 2 * cos x"
    by (simp add: sin_add sin_diff)
  have 2: "sin (x + 3 * pi / 2) - sin (x - 3 * pi / 2) = - (2 * cos x)"
    by (simp add: sin_add sin_diff s)
  have "(sqrt 2 + 1) / (4 * sqrt 2) * (2 * cos x) - (sqrt 2 - 1) / (4 * sqrt 2) * (- (2 * cos x)) = cos x"
    by (simp add: field_simps)
  then show ?thesis unfolding 1 2 .
qed

lemma shift_rule_linear:
  fixes A B :: real
  shows "c1 * ((A - B * p) - (A - B * q)) - c2 * ((A - B * r) - (A - B * s))
     = - B * (c1 * (p - q) - c2 * (r - s))"
  by (simp add: algebra_simps)

lemma four_term_rule_affine:
  assumes "\<And>t. f (\<theta>[i := t]) = A - B * g t"
  shows "four_term_rule f \<theta> i =
     - B * ((sqrt 2 + 1) / (4 * sqrt 2) * (g (\<theta> ! i + pi / 2) - g (\<theta> ! i - pi / 2))
          - (sqrt 2 - 1) / (4 * sqrt 2) * (g (\<theta> ! i + 3 * pi / 2) - g (\<theta> ! i - 3 * pi / 2)))"
  unfolding four_term_rule_def Let_def assms by (rule shift_rule_linear)

lemma four_term_values:
  "four_term_rule circuit_value [t0, t1, t2] 0 = sin t1 * sin (t0 / 2) / 4"
  "four_term_rule circuit_value [t0, t1, t2] 1 = - (cos t1 * cos (t0 / 2) / 2)"
  "four_term_rule circuit_value [t0, t1, t2] 2 = - (sin (t2 / 2) / 2)"
proof -
  have v0: "circuit_value ([t0, t1, t2][0 := t]) = cos (t2 / 2) - sin t1 / 2 * cos (t / 2)" for t
    by (simp add: circuit_value_closed)
  have v1: "circuit_value ([t0, t1, t2][1 := t]) = cos (t2 / 2) - cos (t0 / 2) / 2 * sin t" for t
    by (simp add: circuit_value_closed)
  have v2: "circuit_value ([t0, t1, t2][2 := t]) = - (sin t1 * cos (t0 / 2) / 2) - (- 1) * cos (t / 2)" for t
    by (simp add: circuit_value_closed numeral_2_eq_2)
  show "four_term_rule circuit_value [t0, t1, t2] 0 = sin t1 * sin (t0 / 2) / 4"
    unfolding four_term_rule_affine [of circuit_value, OF v0] half_angle_rule by simp
  show "four_term_rule circuit_value [t0, t1, t2] 1 = - (cos t1 * cos (t0 / 2) / 2)"
    unfolding four_term_rule_affine [of circuit_value, OF v1] full_angle_rule by simp
  show "four_term_rule circuit_value [t0, t1, t2] 2 = - (sin (t2 / 2) / 2)"
    unfolding four_term_rule_affine [of circuit_value, OF v2] half_angle_rule
    by (simp add: numeral_2_eq_2)
qed

lemma circuit_value_derivatives:
  "((\<lambda>t. circuit_value ([t0, t1, t2][0 := t])) has_real_derivative sin t1 * sin (t0 / 2) / 4) (at t0)"
  "((\<lambda>t. circuit_value ([t0, t1, t2][1 := t])) has_real_derivative - (cos t1 * cos (t0 / 2) / 2)) (at t1)"
  "((\<lambda>t. circuit_value ([t0, t1, t2][2 := t])) has_real_derivative - (sin (t2 / 2) / 2)) (at t2)"
  by (simp_all add: circuit_value_closed numeral_2_eq_2) (auto intro!: derivative_eq_intros)

lemma circuit_returns: "length p = 3 \<Longrightarrow> circuit p = Inr (circuit_value p)"
  by (simp add: circuit_def)

lemma length3E:
  assumes "length (xs :: 'a list) = 3"
  obtains a b c where "xs = [a, b, c]"
  using assms by (auto simp: numeral_3_eq_3 length_Suc_conv)

lemma grad_loop_exact:
  assumes "length params = 3"
  shows "grad_loop exact_arith circuit [0..<length params] (params, replicate (length params) 0) =
     (None, params, map (four_term_rule circuit_value params) [0, 1, 2])"
proof -
  from assms obtain a b c where p: "params = [a, b, c]" by (rule length3E)
  have it: "iteration exact_arith circuit i (params, g) = (None, params, g[i := four_term_rule circuit_value params i])"
    if "i < 3" "length g = 3" for i g
    using that assms by (intro iteration_exact) (simp_all add: circuit_returns)
  have u: "[0..<length params] = [0, 1, 2]" using assms by (simp add: upt_rec)
  have r: "replicate (length params) (0::real) = [0, 0, 0]" using assms by (simp add: numeral_3_eq_3)
  show ?thesis
    unfolding u r by (simp add: it numeral_2_eq_2)
qed

text \<open>
  Claim C2.  In exact arithmetic, for every list of three parameters,
  \<open>my_parameter_shift_grad\<close> returns the list of the three four-term combinations, each
  rounded to five decimals, and leaves \<open>params\<close> as it was; and for each \<open>i\<close> the
  four-term combination is the partial derivative of the circuit's expectation value
  with respect to the \<open>i\<close>-th parameter.
\<close>

theorem parameter_shift_gradient:
  assumes "length params = 3"
  shows "\<exists>g. my_parameter_shift_grad exact_arith circuit params
          = (Inr (map (np_round exact_arith 5) g), params)
       \<and> length g = 3
       \<and> (\<forall>i<3. g ! i = four_term_rule circuit_value params i
              \<and> ((\<lambda>t. circuit_value (params[i := t])) has_real_derivative g ! i) (at (params ! i)))"
proof -
  from assms obtain t0 t1 t2 where p: "params = [t0, t1, t2]" by (rule length3E)
  let ?g = "map (four_term_rule circuit_value params) [0, 1, 2]"
  have 1: "my_parameter_shift_grad exact_arith circuit params
      = (Inr (map (np_round exact_arith 5) ?g), params)"
    unfolding my_parameter_shift_grad_def Let_def grad_loop_exact [OF assms] by simp
  have 2: "((\<lambda>t. circuit_value (params[i := t])) has_real_derivative ?g ! i) (at (params ! i))"
    if "i < 3" for i
  proof -
    from that consider "i = 0" | "i = 1" | "i = 2" by linarith
    then show ?thesis
      using circuit_value_derivatives [of t0 t1 t2]
      by cases (simp_all add: p four_term_values four_term_values(2) [unfolded One_nat_def])
  qed
  have 3: "?g ! i = four_term_rule circuit_value params i" if "i < 3" for i
  proof -
    from that consider "i = 0" | "i = 1" | "i = 2" by linarith
    then show ?thesis by cases simp_all
  qed
  show ?thesis
    by (rule exI [of _ ?g]) (use 1 2 3 in simp)
qed

theorem parameter_shift_gradient_witness:
  "\<exists>g. my_parameter_shift_grad exact_arith circuit [123 / 100, 3 / 5, 114 / 25]
          = (Inr (map (np_round exact_arith 5) g), [123 / 100, 3 / 5, 114 / 25])
       \<and> g = [sin (3 / 5) * sin (123 / 200) / 4, - (cos (3 / 5) * cos (123 / 200) / 2),
              - (sin (57 / 25) / 2)]"
proof -
  from parameter_shift_gradient [of "[123 / 100, 3 / 5, 114 / 25]"]
  obtain g where g: "my_parameter_shift_grad exact_arith circuit [123 / 100, 3 / 5, 114 / 25]
          = (Inr (map (np_round exact_arith 5) g), [123 / 100, 3 / 5, 114 / 25])"
     "length g = 3"
     "\<forall>i<3. g ! i = four_term_rule circuit_value [123 / 100, 3 / 5, 114 / 25] i"
    by auto
  from g(2) obtain a b c where abc: "g = [a, b, c]" by (rule length3E)
  from g(3) have "g ! 0 = four_term_rule circuit_value [123 / 100, 3 / 5, 114 / 25] 0"
    "g ! 1 = four_term_rule circuit_value [123 / 100, 3 / 5, 114 / 25] 1"
    "g ! 2 = four_term_rule circuit_value [123 / 100, 3 / 5, 114 / 25] 2"
    by simp_all
  then have "g = [sin (3 / 5) * sin (123 / 200) / 4, - (cos (3 / 5) * cos (123 / 200) / 2),
              - (sin (57 / 25) / 2)]"
    unfolding four_term_values by (simp add: abc)
  with g(1) show ?thesis by blast
qed

lemma restored_exact: "restored exact_arith x = x"
  by (simp add: restored_def shifted_def exact_arith_def)

text \<open>
  Claim C10, amended.  In exact arithmetic the three updates sum to zero: every
  completed pass of the loop body, and every normal return of the function, leaves
  \<open>params\<close> equal to the original list.  With rounded arithmetic of relative error at
  most \<open>u\<close> (for doubles, \<open>u = 2^-53\<close>) an entry \<open>x\<close> is restored up to
  \<open>u (12 |x| + 26 |s1| + 13 |s2|)\<close>, where \<open>s1\<close> and \<open>s2\<close> are the two shifts.
\<close>

theorem params_restored:
  "(iteration exact_arith c i (params, gradient) = (None, params', gradient') \<longrightarrow> params' = params)
   \<and> (my_parameter_shift_grad exact_arith c params = (Inr g, params') \<longrightarrow> params' = params)
   \<and> ((\<forall>r. \<bar>fl A r - r\<bar> \<le> u * \<bar>r\<bar>) \<and> 0 \<le> u \<and> u \<le> 1 / 4
        \<and> my_parameter_shift_grad A c params = (Inr g, params') \<longrightarrow>
        length params' = length params
        \<and> (\<forall>i<length params. \<bar>params' ! i - params ! i\<bar>
              \<le> u * (12 * \<bar>params ! i\<bar> + 26 * \<bar>fst (shifts_and_coeffs A) ! 0\<bar>
                      + 13 * \<bar>fst (shifts_and_coeffs A) ! 1\<bar>)))"
proof (intro conjI impI)
  assume it: "iteration exact_arith c i (params, gradient) = (None, params', gradient')"
  show "params' = params"
  proof (cases "i < length params")
    case True
    from iteration_restores [OF it True] show ?thesis by (simp add: restored_exact)
  next
    case False
    obtain s0 s1 c0 c1 where sc: "shifts_and_coeffs exact_arith = ([s0, s1], [c0, c1])"
      by (simp add: shifts_and_coeffs_def)
    from False have "length params \<le> i" by simp
    with it show ?thesis
      unfolding iteration_def by (auto simp: sc Let_def list_update_beyond split: sum.splits)
  qed
next
  assume "my_parameter_shift_grad exact_arith c params = (Inr g, params')"
  from my_parameter_shift_grad_restores [OF this] show "params' = params"
    by (simp add: restored_exact map_idI)
next
  assume h: "(\<forall>r. \<bar>fl A r - r\<bar> \<le> u * \<bar>r\<bar>) \<and> 0 \<le> u \<and> u \<le> 1 / 4
        \<and> my_parameter_shift_grad A c params = (Inr g, params')"
  then have "my_parameter_shift_grad A c params = (Inr g, params')" by blast
  then have p: "params' = map (restored A) params"
    by (rule my_parameter_shift_grad_restores)
  then show "length params' = length params" by simp
  show "\<forall>i<length params. \<bar>params' ! i - params ! i\<bar>
              \<le> u * (12 * \<bar>params ! i\<bar> + 26 * \<bar>fst (shifts_and_coeffs A) ! 0\<bar>
                      + 13 * \<bar>fst (shifts_and_coeffs A) ! 1\<bar>)"
  proof (intro allI impI)
    fix i assume "i < length params"
    from h have "\<And>r. \<bar>fl A r - r\<bar> \<le> u * \<bar>r\<bar>" "0 \<le> u" "u \<le> 1 / 4" by auto
    from restored_error [OF this, of "params ! i"] \<open>i < length params\<close>
    show "\<bar>params' ! i - params ! i\<bar>
              \<le> u * (12 * \<bar>params ! i\<bar> + 26 * \<bar>fst (shifts_and_coeffs A) ! 0\<bar>
                      + 13 * \<bar>fst (shifts_and_coeffs A) ! 1\<bar>)"
      by (simp add: p)
  qed
qed

lemma returns_normally:
  assumes "length params = 3"
  shows "\<exists>g. my_parameter_shift_grad A circuit params = (Inr g, map (restored A) params)"
proof -
  have "\<exists>v. circuit p = Inr v" if "length p = length params" for p
    using that assms by (simp add: circuit_def)
  then have "\<exists>g. grad_loop A circuit [0..<length params] (params, replicate (length params) 0) =
      (None, map (\<lambda>k. if k \<in> set [0..<length params] then restored A (params ! k) else params ! k)
         [0..<length params], g)"
    by (intro grad_loop_params) auto
  then obtain g where "grad_loop A circuit [0..<length params] (params, replicate (length params) 0) =
      (None, map (\<lambda>k. if k \<in> set [0..<length params] then restored A (params ! k) else params ! k)
         [0..<length params], g)" ..
  moreover have "map (\<lambda>k. if k \<in> set [0..<length params] then restored A (params ! k) else params ! k)
         [0..<length params] = map (restored A) params"
    by (rule nth_equalityI) auto
  ultimately show ?thesis by (simp add: my_parameter_shift_grad_def)
qed

text \<open>
  Claim C10, as stated, fails in the arithmetic the code runs in.  On the list
  \<open>[2^-60, 0.5, 4.5]\<close> of doubles the function returns normally, and the first entry of
  \<open>params\<close> is then \<open>0.0\<close>: \<open>2^-60 + pi/2\<close> rounds to \<open>pi/2\<close>, so the three updates
  end at zero, for the first shift and again for the second.  On the notebook's own
  test input, the doubles nearest to \<open>[1.23, 0.6, 4.56]\<close>, the first entry comes back two
  units in the last place higher: \<open>1.23 + 3 pi/2\<close> falls halfway between two doubles
  and is rounded up.
\<close>

theorem params_not_restored_counterexample:
  "(\<not> isl (fst (my_parameter_shift_grad double_arith circuit [1 / 2 ^ 60, 1 / 2, 9 / 2]))
    \<and> snd (my_parameter_shift_grad double_arith circuit [1 / 2 ^ 60, 1 / 2, 9 / 2]) ! 0 = 0
    \<and> [1 / 2 ^ 60, 1 / 2, 9 / 2] ! 0 \<noteq> (0::real))
   \<and> (\<not> isl (fst (my_parameter_shift_grad double_arith circuit
            (map float_round [123 / 100, 3 / 5, 114 / 25])))
    \<and> snd (my_parameter_shift_grad double_arith circuit
            (map float_round [123 / 100, 3 / 5, 114 / 25])) ! 0
        = 346214221354107 / 281474976710656
    \<and> map float_round [123 / 100, 3 / 5, 114 / 25] ! 0 = 2769713770832855 / 2251799813685248)"
proof -
  from returns_normally [of "[1 / 2 ^ 60, 1 / 2, 9 / 2]" double_arith]
  obtain g where "my_parameter_shift_grad double_arith circuit [1 / 2 ^ 60, 1 / 2, 9 / 2]
      = (Inr g, map (restored double_arith) [1 / 2 ^ 60, 1 / 2, 9 / 2])" by auto
  then have 1: "\<not> isl (fst (my_parameter_shift_grad double_arith circuit [1 / 2 ^ 60, 1 / 2, 9 / 2]))
    \<and> snd (my_parameter_shift_grad double_arith circuit [1 / 2 ^ 60, 1 / 2, 9 / 2]) ! 0 = 0
    \<and> [1 / 2 ^ 60, 1 / 2, 9 / 2] ! 0 \<noteq> (0::real)"
    using restored_double_tiny by simp
  from returns_normally [of "map float_round [123 / 100, 3 / 5, 114 / 25]" double_arith]
  obtain g' where "my_parameter_shift_grad double_arith circuit
        (map float_round [123 / 100, 3 / 5, 114 / 25])
      = (Inr g', map (restored double_arith) (map float_round [123 / 100, 3 / 5, 114 / 25]))"
    by auto
  then have 2: "\<not> isl (fst (my_parameter_shift_grad double_arith circuit
            (map float_round [123 / 100, 3 / 5, 114 / 25])))
    \<and> snd (my_parameter_shift_grad double_arith circuit
            (map float_round [123 / 100, 3 / 5, 114 / 25])) ! 0
        = 346214221354107 / 281474976710656
    \<and> map float_round [123 / 100, 3 / 5, 114 / 25] ! 0 = 2769713770832855 / 2251799813685248"
    using restored_double_test_input by (simp add: test_input_double)
  from 1 2 show ?thesis by (rule conjI)
qed

theorem params_restored_witness:
  "snd (my_parameter_shift_grad exact_arith circuit [123 / 100, 3 / 5, 114 / 25])
     = [123 / 100, 3 / 5, 114 / 25]
   \<and> \<bar>snd (my_parameter_shift_grad double_arith circuit [123 / 100, 3 / 5, 114 / 25]) ! 0 - 123 / 100\<bar>
       \<le> 1 / 2 ^ 53 * (12 * \<bar>123 / 100\<bar> + 26 * \<bar>fst (shifts_and_coeffs double_arith) ! 0\<bar>
                      + 13 * \<bar>fst (shifts_and_coeffs double_arith) ! 1\<bar>)"
proof -
  let ?p = "[123 / 100, 3 / 5, 114 / 25] :: real list"
  from returns_normally [of ?p exact_arith]
  obtain g where g: "my_parameter_shift_grad exact_arith circuit ?p = (Inr g, map (restored exact_arith) ?p)"
    by auto
  from returns_normally [of ?p double_arith]
  obtain g' where g': "my_parameter_shift_grad double_arith circuit ?p
      = (Inr g', map (restored double_arith) ?p)"
    by auto
  have e: "\<forall>r. \<bar>fl double_arith r - r\<bar> \<le> 1 / 2 ^ 53 * \<bar>r\<bar>"
    using double_arith_error by blast
  from params_restored [of circuit 0 ?p "[]" "map (restored exact_arith) ?p" "[]" g] g
  have 1: "snd (my_parameter_shift_grad exact_arith circuit ?p) = ?p" by simp
  have third: "(\<forall>r. \<bar>fl double_arith r - r\<bar> \<le> 1 / 2 ^ 53 * \<bar>r\<bar>) \<and> (0::real) \<le> 1 / 2 ^ 53
      \<and> (1::real) / 2 ^ 53 \<le> 1 / 4
      \<and> my_parameter_shift_grad double_arith circuit ?p = (Inr g', map (restored double_arith) ?p)"
    using e g' by simp
  note pr = params_restored [of circuit 0 ?p "[]" "map (restored double_arith) ?p" "[]" g' double_arith
      "1 / 2 ^ 53"]
  from conjunct2 [OF conjunct2 [OF pr], THEN mp, OF third]
  have "\<forall>i<length ?p. \<bar>map (restored double_arith) ?p ! i - ?p ! i\<bar>
      \<le> 1 / 2 ^ 53 * (12 * \<bar>?p ! i\<bar> + 26 * \<bar>fst (shifts_and_coeffs double_arith) ! 0\<bar>
                      + 13 * \<bar>fst (shifts_and_coeffs double_arith) ! 1\<bar>)"
    by (rule conjunct2)
  from this [rule_format, of 0]
  have "\<bar>map (restored double_arith) ?p ! 0 - ?p ! 0\<bar>
      \<le> 1 / 2 ^ 53 * (12 * \<bar>?p ! 0\<bar> + 26 * \<bar>fst (shifts_and_coeffs double_arith) ! 0\<bar>
                      + 13 * \<bar>fst (shifts_and_coeffs double_arith) ! 1\<bar>)"
    by simp
  with 1 g' show ?thesis by simp
qed

section \<open>Properties of the universality circuits\<close>

lemma cyc_val_add: "cyc_val (cyc_add x y) = cyc_val x + cyc_val y"
  by (cases x; cases y) (simp add: cyc_val_def cyc_add_def algebra_simps)

lemma cyc_val_sub: "cyc_val (cyc_sub x y) = cyc_val x - cyc_val y"
  by (cases x; cases y) (simp add: cyc_val_def cyc_sub_def algebra_simps)

lemma cis_pi4_pow4: "cis (pi / 4) ^ 4 = - 1"
  by (simp add: cis_power_int Complex.DeMoivre)

lemma cyc_val_rot: "cyc_val (cyc_rot x) = cis (pi / 4) * cyc_val x"
proof (cases x)
  case (fields a b c d)
  have "cis (pi / 4) * (cis (pi / 4) ^ 3) = - 1"
    using cis_pi4_pow4 by (simp add: power4_eq_xxxx power3_eq_cube mult.assoc)
  then show ?thesis
    by (simp add: fields cyc_val_def cyc_rot_def algebra_simps power2_eq_square power3_eq_cube)
qed

lemma table_op_refines:
  assumes "two_wire_op g"
  shows "apply_op g (table_state t) = table_state (table_op g t)"
proof -
  obtain k a b c d where t: "t = (k, a, b, c, d)" by (cases t)
  show ?thesis
  proof (cases g)
    case (Hadamard w)
    with assms have "w = 0 \<or> w = 1" by auto
    then show ?thesis
      by (auto simp: Hadamard t table_state_def apply1_def Hadamard_matrix_def mat2_of_def
          cyc_val_add cyc_val_sub fun_eq_iff field_simps)
  next
    case (T w)
    with assms have "w = 0 \<or> w = 1" by auto
    then show ?thesis
      by (auto simp: T t table_state_def apply1_def T_matrix_def mat2_of_def cyc_val_rot fun_eq_iff)
  next
    case (CNOT c' t')
    with assms have "(c' = 0 \<and> t' = 1) \<or> (c' = 1 \<and> t' = 0)" by auto
    then show ?thesis
      by (auto simp: CNOT t table_state_def apply1_def controlled_def PauliX_matrix_def mat2_of_def
          fun_eq_iff)
  qed (use assms in simp_all)
qed

lemma table_ops_refine:
  "list_all two_wire_op gs \<Longrightarrow> apply_ops gs (table_state t) = table_state (fold table_op gs t)"
  by (induction gs arbitrary: t) (simp_all add: table_op_refines)

lemma configs_2:
  "configs 2 = [(\<lambda>w. False), (\<lambda>w. False)(1 := True),
     (\<lambda>w. False)(0 := True), (\<lambda>w. False)(0 := True, 1 := True)]"
  by (simp add: numeral_2_eq_2)

lemma upt2: "[0..<2] = [0, 1]"
  by (simp add: upt_rec)

lemma basis_tables:
  "basis_state 2 (\<lambda>w. False) = table_state (basis_table 0)"
  "basis_state 2 ((\<lambda>w. False)(1 := True)) = table_state (basis_table 1)"
  "basis_state 2 ((\<lambda>w. False)(0 := True)) = table_state (basis_table 2)"
  "basis_state 2 ((\<lambda>w. False)(0 := True, 1 := True)) = table_state (basis_table 3)"
  by (auto simp: basis_state_def table_state_def basis_table_def upt2 cyc_val_def cyc_one_def
      cyc_zero_def fun_eq_iff)

lemma circuit_htcnot_two_wire: "list_all two_wire_op circuit_htcnot"
  by code_simp

lemma circuit_htcnot_tables:
  "fold table_op circuit_htcnot (basis_table 0) = (24, (4096, 0, 0, 0), cyc_zero, cyc_zero, cyc_zero)"
  "fold table_op circuit_htcnot (basis_table 1) = (24, cyc_zero, cyc_zero, (4096, 0, 0, 0), cyc_zero)"
  "fold table_op circuit_htcnot (basis_table 2) = (24, cyc_zero, (4096, 0, 0, 0), cyc_zero, cyc_zero)"
  "fold table_op circuit_htcnot (basis_table 3) = (24, cyc_zero, cyc_zero, cyc_zero, (4096, 0, 0, 0))"
  by code_simp+

lemma sqrt2_pow24: "complex_of_real (sqrt 2) ^ 24 = 4096"
proof -
  have "complex_of_real (sqrt 2) ^ 24 = (complex_of_real (sqrt 2) ^ 2) ^ 12"
    by (simp add: power_mult [symmetric])
  also have "complex_of_real (sqrt 2) ^ 2 = 2"
    by (metis of_real_power of_real_numeral real_sqrt_pow2 zero_le_numeral)
  finally show ?thesis by simp
qed

lemma circuit_htcnot_columns:
  "apply_ops circuit_htcnot (basis_state 2 (\<lambda>w. False))
     = table_state (24, (4096, 0, 0, 0), cyc_zero, cyc_zero, cyc_zero)"
  "apply_ops circuit_htcnot (basis_state 2 ((\<lambda>w. False)(1 := True)))
     = table_state (24, cyc_zero, cyc_zero, (4096, 0, 0, 0), cyc_zero)"
  "apply_ops circuit_htcnot (basis_state 2 ((\<lambda>w. False)(0 := True)))
     = table_state (24, cyc_zero, (4096, 0, 0, 0), cyc_zero, cyc_zero)"
  "apply_ops circuit_htcnot (basis_state 2 ((\<lambda>w. False)(0 := True, 1 := True)))
     = table_state (24, cyc_zero, cyc_zero, cyc_zero, (4096, 0, 0, 0))"
  by (simp_all only: basis_tables table_ops_refine [OF circuit_htcnot_two_wire]
      circuit_htcnot_tables)

lemma table_state_values:
  "table_state (24, (4096, 0, 0, 0), cyc_zero, cyc_zero, cyc_zero) b = (if \<not> b 0 \<and> \<not> b 1 then 1 else 0)"
  "table_state (24, cyc_zero, (4096, 0, 0, 0), cyc_zero, cyc_zero) b = (if \<not> b 0 \<and> b 1 then 1 else 0)"
  "table_state (24, cyc_zero, cyc_zero, (4096, 0, 0, 0), cyc_zero) b = (if b 0 \<and> \<not> b 1 then 1 else 0)"
  "table_state (24, cyc_zero, cyc_zero, cyc_zero, (4096, 0, 0, 0)) b = (if b 0 \<and> b 1 then 1 else 0)"
  by (simp_all add: table_state_def cyc_val_def cyc_zero_def sqrt2_pow24)

lemma circuit_htcnot_matrix:
  "qml_matrix 2 circuit_htcnot = [[1, 0, 0, 0], [0, 0, 1, 0], [0, 1, 0, 0], [0, 0, 0, 1]]"
  unfolding qml_matrix_def configs_2
  by (simp add: circuit_htcnot_columns [unfolded One_nat_def] table_state_values)

lemma U_names: "map op_name U =
  [''Hadamard'', ''Hadamard'', ''CNOT'', ''CNOT'', ''Hadamard'', ''T''] @ replicate 7 ''T'' @
  [''Hadamard'', ''Hadamard'', ''CNOT'', ''Hadamard'', ''Hadamard''] @ replicate 7 ''T'' @
  [''Hadamard'', ''CNOT''] @ replicate 6 ''T'' @ replicate 2 ''T'' @ [''Hadamard'', ''Hadamard'']"
  by (simp add: U_def)

lemma U_name_set: "set (map op_name U) = {''Hadamard'', ''T'', ''CNOT''}"
  unfolding U_names by auto

lemma U3_identity: "apply1 (U3_matrix 0 0 0) w \<psi> = \<psi>"
  by (rule ext) (auto simp: apply1_def U3_matrix_def mat2_of_def fun_upd_idem)

lemma U3_PauliZ: "U3_matrix 0 (pi / 2) (pi / 2) = PauliZ_matrix"
  by (simp add: U3_matrix_def PauliZ_matrix_def)

lemma U3_Hadamard: "U3_matrix (pi / 2) 0 pi = Hadamard_matrix"
proof -
  have h: "complex_of_real (sqrt 2) / 2 = 1 / complex_of_real (sqrt 2)"
    using sq2 by (simp add: field_simps)
  show ?thesis
    by (simp add: U3_matrix_def Hadamard_matrix_def cos_45 sin_45 Let_def h)
qed

lemma circuit_u3cnot_apply:
  "apply_ops circuit_u3cnot \<psi> =
     apply1 Hadamard_matrix 2 (apply1 Hadamard_matrix 1 (controlled 0 (apply1 PauliX_matrix 1)
       (apply1 Hadamard_matrix 1 (apply1 PauliZ_matrix 1 \<psi>))))"
  by (simp add: circuit_u3cnot_def U3_identity U3_PauliZ U3_Hadamard)

lemma upt3': "[0..<3] = [0, Suc 0, 2]"
  by (simp add: upt_rec numeral_2_eq_2)

lemma circuit_u3cnot_matrix:
  "qml_matrix 3 circuit_u3cnot = map (map (\<lambda>x. complex_of_real (1 / sqrt 2 * x))) solution_rows"
  unfolding qml_matrix_def configs_3 circuit_u3cnot_apply solution_rows_def
  apply (simp add: apply1_def controlled_def basis_state_def Hadamard_matrix_def PauliX_matrix_def
      PauliZ_matrix_def mat2_of_def upt3')
  apply (simp add: field_simps sq2)
  done

lemma allclose2_refl:
  assumes "rectangular a" "0 \<le> rtol"
  shows "allclose2 a a rtol = Inr True"
proof -
  have "isclose rtol x x" for x
    using assms(2) by (simp add: isclose_def atol_def)
  then show ?thesis
    using assms(1)
    by (auto simp: allclose2_def broadcast_def list_all_iff zip_same)
qed

lemma SWAP_rectangular: "rectangular SWAP_matrix"
  by (simp add: rectangular_def SWAP_matrix_def)

text \<open>
  Claim C4.  The names on the tape of \<open>U()\<close> are exactly Hadamard, T and CNOT (three
  distinct names), and the matrix of the circuit
  \<open>CNOT[0,1]; H, H; U; CNOT[1,0]; U; H, H\<close> is the SWAP matrix, exactly: its real part,
  which \<open>run\<close> reports, equals SWAP and so passes \<open>allclose\<close> at \<open>rtol = 1e-5\<close>.
\<close>

theorem htcnot_circuit_is_SWAP:
  "set (map op_name U) = {''Hadamard'', ''T'', ''CNOT''}
   \<and> length (remdups (map op_name U)) = 3
   \<and> qml_matrix 2 circuit_htcnot = map (map complex_of_real) SWAP_matrix
   \<and> matrix run_output_htcnot = SWAP_matrix
   \<and> allclose2 (matrix run_output_htcnot) SWAP_matrix (1 / 10 ^ 5) = Inr True"
proof -
  have m: "qml_matrix 2 circuit_htcnot = map (map complex_of_real) SWAP_matrix"
    by (simp add: circuit_htcnot_matrix SWAP_matrix_def)
  have r: "matrix run_output_htcnot = SWAP_matrix"
    by (simp add: run_output_htcnot_def circuit_htcnot_matrix SWAP_matrix_def)
  have "card (set (map op_name U)) = 3"
    unfolding U_name_set by simp
  then have n: "length (remdups (map op_name U)) = 3"
    by (simp only: length_remdups_card_conv)
  show ?thesis
    using m r n U_name_set allclose2_refl [OF SWAP_rectangular, of "1 / 10 ^ 5"] by simp
qed

lemma solution_rectangular: "rectangular solution"
  by (simp add: rectangular_def solution_def solution_rows_def)

text \<open>
  Claim C5.  The names on the tape of the U3 and CNOT circuit are exactly U3 and CNOT (two
  distinct names), and the matrix of the circuit over the wires 0, 1, 2 is \<open>1/sqrt 2\<close>
  times the literal matrix of the checker, exactly; its real part passes \<open>allclose\<close> at
  \<open>rtol = 1e-5\<close>.
\<close>

theorem u3cnot_circuit_matrix:
  "set (map op_name circuit_u3cnot) = {''U3'', ''CNOT''}
   \<and> length (remdups (map op_name circuit_u3cnot)) = 2
   \<and> qml_matrix 3 circuit_u3cnot = map (map complex_of_real) solution
   \<and> matrix run_output_u3cnot = solution
   \<and> allclose2 (matrix run_output_u3cnot) solution (1 / 10 ^ 5) = Inr True"
proof -
  have s: "set (map op_name circuit_u3cnot) = {''U3'', ''CNOT''}"
    by (auto simp: circuit_u3cnot_def)
  have "card (set (map op_name circuit_u3cnot)) = 2"
    unfolding s by simp
  then have n: "length (remdups (map op_name circuit_u3cnot)) = 2"
    by (simp only: length_remdups_card_conv)
  have m: "qml_matrix 3 circuit_u3cnot = map (map complex_of_real) solution"
    by (simp add: circuit_u3cnot_matrix solution_def)
  have r: "matrix run_output_u3cnot = solution"
    by (simp add: run_output_u3cnot_def m comp_def)
  show ?thesis
    using s n m r allclose2_refl [OF solution_rectangular, of "1 / 10 ^ 5"] by simp
qed

section \<open>Properties of the noisy circuit\<close>

lemma bell_vector:
  "apply_ops [Hadamard 0, CNOT 0 1] (basis_state 2 (\<lambda>w. False)) = bell_state"
  by (rule ext)
    (simp add: apply1_def controlled_def basis_state_def Hadamard_matrix_def PauliX_matrix_def
      mat2_of_def upt2 bell_state_def)

lemma bell_density:
  "conjugate_with (apply_op (CNOT 0 1)) (conjugate_with (apply_op (Hadamard 0))
     (projector (basis_state 2 (\<lambda>w. False)))) = projector bell_state"
  apply (rule ext)+
  apply (simp add: conjugate_with_def projector_def apply1_def controlled_def basis_state_def
      Hadamard_matrix_def PauliX_matrix_def mat2_of_def upt2 bell_state_def)
  done

lemma bell_circuit_eq: "bell_circuit = Inr (projector bell_state)"
  unfolding bell_circuit_def
  by (simp only: apply_mixed_ops.simps apply_mixed.simps sum.case bell_density)

lemma sqrt_sq_c: "0 \<le> x \<Longrightarrow> complex_of_real (sqrt x) * complex_of_real (sqrt x) = complex_of_real x"
  by (metis of_real_mult real_sqrt_mult_self abs_of_nonneg)

lemma bitflip_density:
  assumes "0 \<le> p" "p \<le> 1"
  shows "(\<lambda>r c. \<Sum>k\<leftarrow>BitFlip_kraus p. conjugate_with (apply1 k 1)
           (\<lambda>r c. \<Sum>k\<leftarrow>BitFlip_kraus p. conjugate_with (apply1 k 0) (projector bell_state) r c) r c)
         = bitflip_state p"
proof -
  have a: "complex_of_real (sqrt p) * complex_of_real (sqrt p) = complex_of_real p"
    using assms by (intro sqrt_sq_c)
  have b: "complex_of_real (sqrt (1 - p)) * complex_of_real (sqrt (1 - p)) = complex_of_real (1 - p)"
    using assms by (intro sqrt_sq_c) simp
  have a': "complex_of_real (sqrt p) * (complex_of_real (sqrt p) * z) = complex_of_real p * z" for z
    using a by (simp add: mult.assoc [symmetric])
  have b': "complex_of_real (sqrt (1 - p)) * (complex_of_real (sqrt (1 - p)) * z)
      = complex_of_real (1 - p) * z" for z
    using b by (simp add: mult.assoc [symmetric])
  show ?thesis
    apply (rule ext)+
    apply (simp add: conjugate_with_def projector_def apply1_def BitFlip_kraus_def mat2_of_def
        bell_state_def bitflip_state_def)
    apply (simp add: a a' b b' sq2 power2_eq_square algebra_simps)
    apply (simp add: field_simps)
    done
qed

lemma bitflip_circuit_eq:
  assumes "0 \<le> p" "p \<le> 1"
  shows "bitflip_circuit p = Inr (bitflip_state p)"
  unfolding bitflip_circuit_def using assms
  by (simp only: apply_mixed_ops.simps apply_mixed.simps sum.case bell_density bitflip_density
      simp_thms if_True)

lemma overlap_bitflip_state:
  "overlap v (bitflip_state p) =
     complex_of_real ((1 - 2 * p + 2 * p\<^sup>2) / 2)
       * (cnj (v (\<lambda>w. False) + v ((\<lambda>w. False)(0 := True, 1 := True)))
          * (v (\<lambda>w. False) + v ((\<lambda>w. False)(0 := True, 1 := True))))
     + complex_of_real (p * (1 - p))
       * (cnj (v ((\<lambda>w. False)(1 := True)) + v ((\<lambda>w. False)(0 := True)))
          * (v ((\<lambda>w. False)(1 := True)) + v ((\<lambda>w. False)(0 := True))))"
  by (simp add: overlap_def configs_2 bitflip_state_def algebra_simps)

lemma psd_form:
  assumes "0 \<le> a" "0 \<le> b"
  shows "Im (complex_of_real a * (cnj z * z) + complex_of_real b * (cnj w * w)) = 0"
    and "0 \<le> Re (complex_of_real a * (cnj z * z) + complex_of_real b * (cnj w * w))"
proof -
  have z: "cnj z * z = complex_of_real ((norm z)\<^sup>2)" for z
    using complex_norm_square [of z] by (simp only: mult.commute)
  have e: "complex_of_real a * (cnj z * z) + complex_of_real b * (cnj w * w)
      = complex_of_real (a * (norm z)\<^sup>2 + b * (norm w)\<^sup>2)"
    by (simp add: z)
  show "Im (complex_of_real a * (cnj z * z) + complex_of_real b * (cnj w * w)) = 0"
    unfolding e by simp
  show "0 \<le> Re (complex_of_real a * (cnj z * z) + complex_of_real b * (cnj w * w))"
    unfolding e using assms by simp
qed

lemma psd_bitflip_state:
  assumes "0 \<le> p" "p \<le> 1"
  shows "psd (bitflip_state p)"
proof -
  have 1: "0 \<le> (1 - 2 * p + 2 * p\<^sup>2) / 2"
  proof -
    have "1 - 2 * p + 2 * p\<^sup>2 = (1 - p)\<^sup>2 + p\<^sup>2" by (simp add: power2_eq_square algebra_simps)
    moreover have "0 \<le> (1 - p)\<^sup>2 + p\<^sup>2" by simp
    ultimately have "0 \<le> 1 - 2 * p + 2 * p\<^sup>2" by (simp only:)
    then show ?thesis by simp
  qed
  have 2: "0 \<le> p * (1 - p)" using assms by simp
  show ?thesis
    unfolding psd_def overlap_bitflip_state
    using psd_form [OF 1 2] by blast
qed

lemma overlap_bell:
  "Re (overlap bell_state (bitflip_state p)) = 1 - 2 * p + 2 * p\<^sup>2"
  unfolding overlap_bitflip_state
  by (simp add: bell_state_def)

lemma trace_product_law: "pure_state_law trace_product"
  by (simp add: pure_state_law_def trace_product_def overlap_def projector_def mult_ac)

lemma fidelities_map:
  assumes "pure_state_law fidelity" "list_all (\<lambda>p. 0 \<le> p \<and> p \<le> 1) probs"
  shows "fidelities fidelity probs = Inr (map (\<lambda>p. 1 - 2 * p + 2 * p\<^sup>2) probs)"
  using assms(2)
proof (induction probs)
  case Nil
  then show ?case by simp
next
  case (Cons p probs)
  then have p: "0 \<le> p" "p \<le> 1" by simp_all
  have "fidelity (bitflip_state p) (projector bell_state) = 1 - 2 * p + 2 * p\<^sup>2"
    using assms(1) psd_bitflip_state [OF p] overlap_bell by (simp add: pure_state_law_def)
  with Cons show ?case
    by (simp add: bitflip_circuit_eq [OF p] bell_circuit_eq)
qed

text \<open>
  Claim C3.  For \<open>p\<close> in the unit interval the state of \<open>bitflip_circuit(p)\<close> and the Bell
  state of \<open>circuit()\<close> are the closed forms above, their fidelity is \<open>1 - 2p + 2p\<^sup>2\<close>,
  \<open>fidelities\<close> returns the list of these values, and on
  \<open>[0.05, 0.1, 0.15, 0.2, 0.25]\<close> that is \<open>[0.905, 0.82, 0.745, 0.68, 0.625]\<close>.
\<close>

theorem fidelities_closed_form:
  assumes "pure_state_law fidelity"
  shows "(0 \<le> p \<and> p \<le> 1 \<longrightarrow>
            bitflip_circuit p = Inr (bitflip_state p) \<and> bell_circuit = Inr (projector bell_state)
            \<and> fidelity (bitflip_state p) (projector bell_state) = 1 - 2 * p + 2 * p\<^sup>2)
       \<and> (list_all (\<lambda>p. 0 \<le> p \<and> p \<le> 1) probs \<longrightarrow>
            fidelities fidelity probs = Inr (map (\<lambda>p. 1 - 2 * p + 2 * p\<^sup>2) probs))
       \<and> fidelities fidelity [5 / 100, 1 / 10, 15 / 100, 2 / 10, 25 / 100]
            = Inr [905 / 1000, 82 / 100, 745 / 1000, 68 / 100, 625 / 1000]"
proof (intro conjI impI)
  assume p: "0 \<le> p \<and> p \<le> 1"
  then show "bitflip_circuit p = Inr (bitflip_state p)" by (simp add: bitflip_circuit_eq)
  show "bell_circuit = Inr (projector bell_state)" by (rule bell_circuit_eq)
  show "fidelity (bitflip_state p) (projector bell_state) = 1 - 2 * p + 2 * p\<^sup>2"
    using assms p psd_bitflip_state [of p] overlap_bell by (simp add: pure_state_law_def)
next
  assume "list_all (\<lambda>p. 0 \<le> p \<and> p \<le> 1) probs"
  with assms show "fidelities fidelity probs = Inr (map (\<lambda>p. 1 - 2 * p + 2 * p\<^sup>2) probs)"
    by (rule fidelities_map)
next
  have "list_all (\<lambda>p. 0 \<le> p \<and> p \<le> 1) [5 / 100, 1 / 10, 15 / 100, 2 / 10, 25 / 100 :: real]"
    by simp
  from fidelities_map [OF assms this]
  show "fidelities fidelity [5 / 100, 1 / 10, 15 / 100, 2 / 10, 25 / 100]
            = Inr [905 / 1000, 82 / 100, 745 / 1000, 68 / 100, 625 / 1000]"
    by (simp add: power2_eq_square)
qed

theorem fidelities_closed_form_witness:
  "fidelities trace_product [5 / 100, 1 / 10, 15 / 100, 2 / 10, 25 / 100]
     = Inr [905 / 1000, 82 / 100, 745 / 1000, 68 / 100, 625 / 1000]
   \<and> trace_product (bitflip_state (1 / 10)) (projector bell_state) = 82 / 100"
proof -
  have "(0::real) \<le> 1 / 10 \<and> (1::real) / 10 \<le> 1" by simp
  with fidelities_closed_form [OF trace_product_law, of "1 / 10" "[]"]
  show ?thesis by (simp add: power2_eq_square)
qed

section \<open>Properties of the extrapolation\<close>

lemma polyval3: "polyval [a, b, c] x = a * x\<^sup>2 + b * x + c"
  by (simp add: polyval_def power2_eq_square algebra_simps)

lemma interpolant_exists:
  fixes x1 x2 x3 :: real
  assumes "x1 \<noteq> x2" "x1 \<noteq> x3" "x2 \<noteq> x3"
  shows "\<exists>a b c. a * x1\<^sup>2 + b * x1 + c = y1 \<and> a * x2\<^sup>2 + b * x2 + c = y2 \<and> a * x3\<^sup>2 + b * x3 + c = y3"
proof -
  define f12 where "f12 = (y2 - y1) / (x2 - x1)"
  define f23 where "f23 = (y3 - y2) / (x3 - x2)"
  define a where "a = (f23 - f12) / (x3 - x1)"
  define b where "b = f12 - a * (x1 + x2)"
  define c where "c = y1 - a * x1\<^sup>2 - b * x1"
  have d: "x2 - x1 \<noteq> 0" "x3 - x2 \<noteq> 0" "x3 - x1 \<noteq> 0" using assms by auto
  have 1: "a * x1\<^sup>2 + b * x1 + c = y1" by (simp add: c_def)
  have f12: "f12 * (x2 - x1) = y2 - y1" using d by (simp add: f12_def)
  have f23: "f23 * (x3 - x2) = y3 - y2" using d by (simp add: f23_def)
  have a: "a * (x3 - x1) = f23 - f12" using d by (simp add: a_def)
  have "a * x2\<^sup>2 + b * x2 + c - y1 = (x2 - x1) * (a * (x1 + x2) + b)"
    by (simp add: c_def power2_eq_square algebra_simps)
  also have "\<dots> = f12 * (x2 - x1)" by (simp add: b_def)
  finally have 2: "a * x2\<^sup>2 + b * x2 + c = y2" using f12 by simp
  have "a * x3\<^sup>2 + b * x3 + c - y2 = (a * x3\<^sup>2 + b * x3 + c) - (a * x2\<^sup>2 + b * x2 + c)"
    using 2 by simp
  also have "\<dots> = (x3 - x2) * (a * (x2 + x3) + b)"
    by (simp add: power2_eq_square algebra_simps)
  also have "a * (x2 + x3) + b = a * (x3 - x1) + f12"
    by (simp add: b_def algebra_simps)
  also have "\<dots> = f23" using a by simp
  finally have 3: "a * x3\<^sup>2 + b * x3 + c = y3" using f23 by (simp add: mult.commute)
  from 1 2 3 show ?thesis by blast
qed

lemma interpolant_unique:
  fixes x1 x2 x3 :: real
  assumes d: "x1 \<noteq> x2" "x1 \<noteq> x3" "x2 \<noteq> x3"
    and p: "a * x1\<^sup>2 + b * x1 + c = y1" "a * x2\<^sup>2 + b * x2 + c = y2" "a * x3\<^sup>2 + b * x3 + c = y3"
    and q: "a' * x1\<^sup>2 + b' * x1 + c' = y1" "a' * x2\<^sup>2 + b' * x2 + c' = y2" "a' * x3\<^sup>2 + b' * x3 + c' = y3"
  shows "a' = a \<and> b' = b \<and> c' = c"
proof -
  define \<alpha> where "\<alpha> = a' - a"
  define \<beta> where "\<beta> = b' - b"
  define \<gamma> where "\<gamma> = c' - c"
  have z: "\<alpha> * x1\<^sup>2 + \<beta> * x1 + \<gamma> = 0" "\<alpha> * x2\<^sup>2 + \<beta> * x2 + \<gamma> = 0" "\<alpha> * x3\<^sup>2 + \<beta> * x3 + \<gamma> = 0"
    using p q by (simp_all add: \<alpha>_def \<beta>_def \<gamma>_def algebra_simps)
  have "(x1 - x2) * (\<alpha> * (x1 + x2) + \<beta>) = 0"
    using z(1,2) by (simp add: power2_eq_square algebra_simps)
  then have e12: "\<alpha> * (x1 + x2) + \<beta> = 0" using d by simp
  have "(x1 - x3) * (\<alpha> * (x1 + x3) + \<beta>) = 0"
    using z(1,3) by (simp add: power2_eq_square algebra_simps)
  then have e13: "\<alpha> * (x1 + x3) + \<beta> = 0" using d by simp
  have "\<alpha> * (x2 - x3) = (\<alpha> * (x1 + x2) + \<beta>) - (\<alpha> * (x1 + x3) + \<beta>)"
    by (simp add: algebra_simps)
  then have "\<alpha> * (x2 - x3) = 0" unfolding e12 e13 by simp
  then have "\<alpha> = 0" using d by simp
  with e12 have "\<beta> = 0" by simp
  with \<open>\<alpha> = 0\<close> z(1) have "\<gamma> = 0" by simp
  with \<open>\<alpha> = 0\<close> \<open>\<beta> = 0\<close> show ?thesis by (simp add: \<alpha>_def \<beta>_def \<gamma>_def)
qed

lemma squared_error3:
  "squared_error [a, b, c] [x1, x2, x3] [y1, y2, y3] =
     (a * x1\<^sup>2 + b * x1 + c - y1)\<^sup>2 + (a * x2\<^sup>2 + b * x2 + c - y2)\<^sup>2
       + (a * x3\<^sup>2 + b * x3 + c - y3)\<^sup>2"
  by (simp add: squared_error_def polyval3)

lemma three_squares_zero:
  fixes r1 r2 r3 :: real
  assumes "r1\<^sup>2 + r2\<^sup>2 + r3\<^sup>2 \<le> 0"
  shows "r1 = 0 \<and> r2 = 0 \<and> r3 = 0"
proof -
  have "0 \<le> r1\<^sup>2" "0 \<le> r2\<^sup>2" "0 \<le> r3\<^sup>2" by simp_all
  with assms have "r1\<^sup>2 = 0" "r2\<^sup>2 = 0" "r3\<^sup>2 = 0" by linarith+
  then show ?thesis by simp
qed

lemma least_squares_interpolates:
  fixes x1 x2 x3 :: real
  assumes d: "x1 \<noteq> x2" "x1 \<noteq> x3" "x2 \<noteq> x3"
    and lsq: "least_squares_fit [x1, x2, x3] [y1, y2, y3] 2 coeffs"
  shows "\<exists>a b c. coeffs = [a, b, c]
     \<and> a * x1\<^sup>2 + b * x1 + c = y1 \<and> a * x2\<^sup>2 + b * x2 + c = y2 \<and> a * x3\<^sup>2 + b * x3 + c = y3"
proof -
  from lsq have "length coeffs = 3" by (simp add: least_squares_fit_def)
  then obtain a b c where coeffs: "coeffs = [a, b, c]" by (rule length3E)
  from interpolant_exists [OF d] obtain a0 b0 c0 where
    i: "a0 * x1\<^sup>2 + b0 * x1 + c0 = y1" "a0 * x2\<^sup>2 + b0 * x2 + c0 = y2" "a0 * x3\<^sup>2 + b0 * x3 + c0 = y3"
    by blast
  have "squared_error [a0, b0, c0] [x1, x2, x3] [y1, y2, y3] = 0"
    by (simp add: squared_error3 i)
  moreover from lsq have
    "squared_error coeffs [x1, x2, x3] [y1, y2, y3] \<le> squared_error [a0, b0, c0] [x1, x2, x3] [y1, y2, y3]"
    by (simp add: least_squares_fit_def)
  ultimately have "squared_error [a, b, c] [x1, x2, x3] [y1, y2, y3] \<le> 0"
    by (simp add: coeffs)
  then have "a * x1\<^sup>2 + b * x1 + c - y1 = 0 \<and> a * x2\<^sup>2 + b * x2 + c - y2 = 0
      \<and> a * x3\<^sup>2 + b * x3 + c - y3 = 0"
    unfolding squared_error3 by (rule three_squares_zero)
  with coeffs show ?thesis by simp
qed

text \<open>
  Claim C6.  For three distinct scale factors, and a \<open>polyfit\<close> that returns a
  least-squares fit of degree 2 of the three mitigated energies, \<open>extrapolation\<close> returns
  the list of the ideal energy (the VQE energy of the QNode on the noise-free device,
  rounded to six decimals) and the last coefficient of the fit, in that order; the fit
  passes through the three points, it is the only quadratic that does, and its last
  coefficient is its value at the scale factor 0.
\<close>

theorem extrapolation_zero_noise:
  assumes d: "x1 \<noteq> x2" "x1 \<noteq> x3" "x2 \<noteq> x3"
    and e: "mitigated_energies = map (VQE lib) (snd (qnode_ansatzes lib d [x1, x2, x3]))"
    and lsq: "least_squares_fit [x1, x2, x3] mitigated_energies 2
                (polyfit lib [x1, x2, x3] mitigated_energies 2)"
  shows "\<exists>a b c. polyfit lib [x1, x2, x3] mitigated_energies 2 = [a, b, c]
      \<and> interpolates a b c [x1, x2, x3] mitigated_energies
      \<and> (\<forall>a' b' c'. interpolates a' b' c' [x1, x2, x3] mitigated_energies
            \<longrightarrow> a' = a \<and> b' = b \<and> c' = c)
      \<and> extrapolation A lib d [x1, x2, x3]
          = Inr [np_round A 6 (VQE lib (QNode lib d Default_mixed)), a * 0\<^sup>2 + b * 0 + c]"
proof -
  define y1 where "y1 = VQE lib (fold_global lib (QNode lib d (Insert_DepolarizingChannel (5 / 100) Default_mixed)) x1)"
  define y2 where "y2 = VQE lib (fold_global lib (QNode lib d (Insert_DepolarizingChannel (5 / 100) Default_mixed)) x2)"
  define y3 where "y3 = VQE lib (fold_global lib (QNode lib d (Insert_DepolarizingChannel (5 / 100) Default_mixed)) x3)"
  have ys: "mitigated_energies = [y1, y2, y3]"
    unfolding e by (simp add: qnode_ansatzes_def Let_def y1_def y2_def y3_def)
  from least_squares_interpolates [OF d lsq [unfolded ys]] obtain a b c where
    c: "polyfit lib [x1, x2, x3] [y1, y2, y3] 2 = [a, b, c]"
    and i: "a * x1\<^sup>2 + b * x1 + c = y1" "a * x2\<^sup>2 + b * x2 + c = y2" "a * x3\<^sup>2 + b * x3 + c = y3"
    by blast
  have u: "a' = a \<and> b' = b \<and> c' = c" if "interpolates a' b' c' [x1, x2, x3] [y1, y2, y3]" for a' b' c'
    using that interpolant_unique [OF d i, of a' b' c'] by (simp add: interpolates_def)
  have m: "map (VQE lib) (snd (qnode_ansatzes lib d [x1, x2, x3])) = [y1, y2, y3]"
    using e ys by simp
  have x: "extrapolation A lib d [x1, x2, x3]
          = Inr [np_round A 6 (VQE lib (QNode lib d Default_mixed)), a * 0\<^sup>2 + b * 0 + c]"
    unfolding extrapolation_def Let_def split_beta m c
    by (simp add: qnode_ansatzes_def Let_def)
  have "interpolates a b c [x1, x2, x3] [y1, y2, y3]"
    using i by (simp add: interpolates_def)
  with c u x show ?thesis
    unfolding ys by blast
qed

lemma squared_error_nonneg: "0 \<le> squared_error cs xs ys"
  unfolding squared_error_def by (rule sum_list_nonneg) auto

theorem extrapolation_zero_noise_witness:
  "extrapolation exact_arith example_pennylane (6614 / 10000) [1, 2, 3] = Inr [- 1, 0]"
proof -
  let ?ys = "map (VQE example_pennylane) (snd (qnode_ansatzes example_pennylane (6614 / 10000) [1, 2, 3]))"
  have ys: "?ys = [1, 4, 9]"
    by (simp add: qnode_ansatzes_def VQE_def example_pennylane_def Let_def)
  have p': "polyfit example_pennylane xs zs deg = [1, 0, 0]" for xs zs deg
    by (simp add: example_pennylane_def)
  have p: "polyfit example_pennylane [1, 2, 3] ?ys 2 = [1, 0, 0]"
    by (rule p')
  have "squared_error [1, 0, 0] [1, 2, 3] [1, 4, 9] = 0"
    by (simp add: squared_error3)
  then have lsq: "least_squares_fit [1, 2, 3] ?ys 2 (polyfit example_pennylane [1, 2, 3] ?ys 2)"
    unfolding ys by (simp add: least_squares_fit_def squared_error_nonneg p')
  have d: "(1::real) \<noteq> 2" "(1::real) \<noteq> 3" "(2::real) \<noteq> 3" by simp_all
  from extrapolation_zero_noise [OF d refl lsq, of exact_arith] obtain a b c where
    "polyfit example_pennylane [1, 2, 3] ?ys 2 = [a, b, c]"
    "extrapolation exact_arith example_pennylane (6614 / 10000) [1, 2, 3]
      = Inr [np_round exact_arith 6 (VQE example_pennylane (QNode example_pennylane (6614 / 10000) Default_mixed)),
             a * 0\<^sup>2 + b * 0 + c]"
    by blast
  moreover have "np_round exact_arith 6 (VQE example_pennylane (QNode example_pennylane (6614 / 10000) Default_mixed)) = - 1"
    by (simp add: np_round_def exact_arith_def VQE_def example_pennylane_def Let_def)
  ultimately show ?thesis unfolding p by simp
qed

section \<open>Properties of the run functions\<close>

text \<open>
  The only object that the code of the notebooks itself updates is the parameter list of
  the parameter-shift notebook, and \<open>run\<close> creates that list anew on each call: the two
  lemmas below say what \<open>run\<close> returns and that it leaves the objects it found as they
  were.  The objects that outlive a call, the module-level device and QNode and the
  queuing context of the library, are state of PennyLane, whose code is not part of the
  notebooks; here its calls are functions.  That two calls of a \<open>run\<close> function return
  the same string therefore holds of every function of this theory by construction and
  says nothing about the program; it is not stated as a theorem.
\<close>

lemma run_gradient_result:
  "fst (run_gradient A loads str c store input) =
     (case loads input of
        Inl e \<Rightarrow> Inl e
      | Inr params \<Rightarrow>
          (case fst (my_parameter_shift_grad A c params) of Inl e \<Rightarrow> Inl e | Inr g \<Rightarrow> Inr (str g)))"
  by (simp add: run_gradient_def my_parameter_shift_grad_at_def Let_def split_beta
      split: sum.splits)

lemma run_gradient_frame:
  "take (length store) (snd (run_gradient A loads str c store input)) = store"
  by (simp add: run_gradient_def my_parameter_shift_grad_at_def Let_def split_beta
      split: sum.splits)

end
